theory Spec2Isabelle
  imports Main
begin

section \<open>Data model\<close>

text \<open>
  The formatting toolbar of blumbaben: \<^verbatim>\<open>src/types.ts\<close>, \<^verbatim>\<open>src/utils/domUtils.ts\<close> and
  \<^verbatim>\<open>src/utils/globalToolbarManager.ts\<close>.

  Objects with identity are references: a DOM element is a \<open>ref\<close> into the element
  store, an \<open>onChange\<close> handler, a subscriber callback and a timer handle are names. The
  bodies of change handlers and subscriber callbacks are the application's; an invocation
  is recorded in the trace of the world with the arguments it received, and is taken to
  return normally without calling back into the manager. The focus and blur handlers of an
  input are the repository's own (\<^verbatim>\<open>useFormattingToolbar\<close>); they call the manager and are
  modelled in full, so are the timer and the focus of the page that run them.
\<close>

type_synonym ref = nat
type_synonym handler = nat
type_synonym callback = nat
type_synonym timeout = nat

text \<open>A value thrown by a caller-supplied function.\<close>

datatype exn = Thrown string

text \<open>\<^verbatim>\<open>FormatterFunction = (text: string) => string\<close>; \<open>Inl\<close> when the call throws.
  A string is the list of its code units.\<close>

type_synonym FormatterFunction = "string \<Rightarrow> exn + string"

text \<open>\<^verbatim>\<open>ToolbarPosition = { x: number; y: number }\<close>. The manager stores and publishes
  coordinates and computes on them in \<open>defaultGetPosition\<close> only; they are integers here.\<close>

record ToolbarPosition =
  pos_x :: int
  pos_y :: int

text \<open>
  What the code reads and writes of an \<^verbatim>\<open>HTMLInputElement | HTMLTextAreaElement\<close>:
  \<^verbatim>\<open>value\<close>, \<^verbatim>\<open>selectionStart\<close>, \<^verbatim>\<open>selectionEnd\<close> (each may be null, hence the \<^verbatim>\<open>??\<close> of the
  source), \<^verbatim>\<open>props?.onChange\<close> and the \<^verbatim>\<open>left\<close> and \<^verbatim>\<open>bottom\<close> of \<^verbatim>\<open>getBoundingClientRect()\<close>.
\<close>

record TextInputElement =
  selectionEnd :: "int option"
  selectionStart :: "int option"
  elem_value :: "string option"
  props_onChange :: "handler option"
  rect_left :: int
  rect_bottom :: int

text \<open>
  \<^verbatim>\<open>ToolbarConfig\<close> of \<^verbatim>\<open>src/types.ts\<close>, as far as the handlers that
  \<^verbatim>\<open>useFormattingToolbar\<close> puts on an input read it: \<^verbatim>\<open>getPosition\<close> and \<^verbatim>\<open>hideDelay\<close>, each
  \<open>None\<close> when the caller leaves it out.
\<close>

record ToolbarConfig =
  config_getPosition :: "(TextInputElement \<Rightarrow> exn + ToolbarPosition) option"
  config_hideDelay :: "nat option"

section \<open>domUtils.ts: applyFormattingOnSelection\<close>

text \<open>
  \<^verbatim>\<open>String.prototype.substring(start, end)\<close> of the language: an absent \<open>end\<close> is the
  length, both bounds are clamped to \<open>[0, length]\<close>, and the smaller one is the start.
\<close>

definition substring :: "string \<Rightarrow> int \<Rightarrow> int option \<Rightarrow> string" where
  "substring s start end =
     (let len = int (length s);
          intStart = start;
          intEnd = (case end of None \<Rightarrow> len | Some e \<Rightarrow> e);
          finalStart = min (max intStart 0) len;
          finalEnd = min (max intEnd 0) len;
          from = min finalStart finalEnd;
          to = max finalStart finalEnd
      in take (nat (to - from)) (drop (nat from) s))"

text \<open>The nullish coalescing \<^verbatim>\<open>a ?? b\<close>.\<close>

definition nullish :: "'a option \<Rightarrow> 'a \<Rightarrow> 'a" where
  "nullish a b = (case a of None \<Rightarrow> b | Some v \<Rightarrow> v)"

definition applyFormattingOnSelection :: "TextInputElement \<Rightarrow> FormatterFunction \<Rightarrow> exn + string" where
  "applyFormattingOnSelection element formatter =
     (let selEnd = nullish (selectionEnd element) 0;
          selStart = nullish (selectionStart element) 0;
          v = nullish (elem_value element) ''''
      in if selEnd > selStart then
           (let before = substring v 0 (Some selStart);
                selected = substring v selStart (Some selEnd);
                after = substring v selEnd None
            in case formatter selected of
                 Inl e \<Rightarrow> Inl e
               | Inr formatted \<Rightarrow> Inr (before @ formatted @ after))
         else formatter v)"

section \<open>The toolbar state and the world the manager runs in\<close>

text \<open>\<^verbatim>\<open>ToolbarState\<close> of \<^verbatim>\<open>src/types.ts\<close>; \<open>None\<close> is \<^verbatim>\<open>null\<close>.\<close>

record ToolbarState =
  activeElement :: "ref option"
  isVisible :: bool
  position :: "ToolbarPosition option"

text \<open>\<^verbatim>\<open>Partial<ToolbarState>\<close>, the argument of \<open>setState\<close>: a field that is absent from
  the object is \<open>None\<close> here, a field that is present carries its value.\<close>

record PartialToolbarState =
  new_activeElement :: "ref option option"
  new_isVisible :: "bool option"
  new_position :: "ToolbarPosition option option"

text \<open>The object \<^verbatim>\<open>{ currentTarget: element, target: element }\<close> passed to a change handler.\<close>

record SyntheticEvent =
  currentTarget :: ref
  target :: ref

text \<open>What the manager does to its surroundings, in the order it does it.\<close>

datatype effect =
    ConsoleWarn string
  | ValueWritten ref string
  | EventDispatched ref string bool
  | OnChangeCalled handler SyntheticEvent
  | Focused ref
  | Published callback ToolbarState
  | TimerFired timeout nat

text \<open>The private fields of \<^verbatim>\<open>class GlobalToolbarManager\<close>. \<open>subscribers\<close> is a
  \<^verbatim>\<open>Set\<close>: it holds a callback at most once and iterates in insertion order, so it is a
  list that \<open>set_add\<close> keeps free of duplicates.\<close>

record GlobalToolbarManager =
  activeElementOnChange :: "handler option"
  hideTimeout :: "timeout option"
  state :: ToolbarState
  subscribers :: "callback list"

text \<open>The two runtimes the module runs in; their \<^verbatim>\<open>setTimeout\<close> differ on the delays they
  do not honour.\<close>

datatype runtime = NodeJS | Browser

text \<open>
  The world: the manager, the element store, the timers of the runtime and the focus of
  the page. Every timer this module starts has the callback \<^verbatim>\<open>() => this.hideToolbar()\<close>,
  so a pending timer is its handle and its deadline on the millisecond clock. \<open>focused\<close>
  is the input that has the focus (\<open>None\<close> when the focus is elsewhere), and \<open>bindings\<close>
  gives, for an input that carries the \<^verbatim>\<open>onFocus\<close> and \<^verbatim>\<open>onBlur\<close> of \<^verbatim>\<open>getInputProps()\<close>, the
  configuration of its hook.
\<close>

record world =
  manager :: GlobalToolbarManager
  elements :: "ref \<Rightarrow> TextInputElement"
  timers :: "(timeout \<times> nat) list"
  nextTimeout :: timeout
  clock :: nat
  trace :: "effect list"
  runtime :: runtime
  focused :: "ref option"
  bindings :: "ref \<Rightarrow> ToolbarConfig option"

definition initial_manager :: GlobalToolbarManager where
  "initial_manager =
     \<lparr>activeElementOnChange = None, hideTimeout = None,
      state = \<lparr>activeElement = None, isVisible = False, position = None\<rparr>,
      subscribers = []\<rparr>"

text \<open>The page at module initialisation: nothing has the focus and no input is bound yet.\<close>

definition initial_world :: "runtime \<Rightarrow> (ref \<Rightarrow> TextInputElement) \<Rightarrow> world" where
  "initial_world rt els =
     \<lparr>manager = initial_manager, elements = els, timers = [], nextTimeout = 1, clock = 0,
      trace = [], runtime = rt, focused = None, bindings = (\<lambda>r. None)\<rparr>"

subsection \<open>The runtime: Set, setTimeout, clearTimeout\<close>

definition set_add :: "'a \<Rightarrow> 'a list \<Rightarrow> 'a list" where
  "set_add a xs = (if a \<in> set xs then xs else xs @ [a])"

definition set_delete :: "'a \<Rightarrow> 'a list \<Rightarrow> 'a list" where
  "set_delete a xs = removeAll a xs"

text \<open>
  The delay \<^verbatim>\<open>setTimeout\<close> really waits, for a delay of whole milliseconds. Node keeps a
  delay from \<open>1\<close> to \<open>2^31 - 1\<close> and sets every other one to \<open>1\<close>. A browser converts the
  delay to a signed 32-bit integer (modulo \<open>2^32\<close>) and sets a negative result to \<open>0\<close>.
\<close>

definition timer_delay :: "runtime \<Rightarrow> nat \<Rightarrow> nat" where
  "timer_delay rt delay =
     (case rt of
        NodeJS \<Rightarrow> if 1 \<le> delay \<and> delay \<le> 2147483647 then delay else 1
      | Browser \<Rightarrow>
          (let wrapped = delay mod 4294967296
           in if wrapped \<le> 2147483647 then wrapped else 0))"

text \<open>\<^verbatim>\<open>setTimeout\<close> returns a fresh handle (always truthy) and never runs the callback
  before it returns; \<^verbatim>\<open>clearTimeout\<close> of a handle that is not pending does nothing.\<close>

definition setTimeout :: "nat \<Rightarrow> world \<Rightarrow> timeout \<times> world" where
  "setTimeout delay w =
     (nextTimeout w,
      w\<lparr>timers := timers w @ [(nextTimeout w, clock w + timer_delay (runtime w) delay)],
        nextTimeout := Suc (nextTimeout w)\<rparr>)"

definition clearTimeout :: "timeout \<Rightarrow> world \<Rightarrow> world" where
  "clearTimeout h w = w\<lparr>timers := filter (\<lambda>t. fst t \<noteq> h) (timers w)\<rparr>"

section \<open>domUtils.ts: updateElementValue\<close>

definition updateElementValue :: "ref \<Rightarrow> string \<Rightarrow> handler option \<Rightarrow> world \<Rightarrow> world" where
  "updateElementValue element newValue onChange w =
     (let w1 = w\<lparr>elements := (elements w)(element := (elements w element)\<lparr>elem_value := Some newValue\<rparr>),
                 trace := trace w @ [ValueWritten element newValue]\<rparr>;
          w2 = w1\<lparr>trace := trace w1 @ [EventDispatched element ''input'' True]\<rparr>
      in case onChange of
           None \<Rightarrow> w2
         | Some h \<Rightarrow>
             (let syntheticEvent = \<lparr>currentTarget = element, target = element\<rparr>
              in w2\<lparr>trace := trace w2 @ [OnChangeCalled h syntheticEvent]\<rparr>))"

section \<open>globalToolbarManager.ts\<close>

definition defaultGetPosition :: "TextInputElement \<Rightarrow> exn + ToolbarPosition" where
  "defaultGetPosition element = Inr \<lparr>pos_x = rect_left element, pos_y = rect_bottom element + 5\<rparr>"

definition getState :: "world \<Rightarrow> ToolbarState" where
  "getState w = state (manager w)"

definition clearHideTimeout :: "world \<Rightarrow> world" where
  "clearHideTimeout w =
     (case hideTimeout (manager w) of
        None \<Rightarrow> w
      | Some h \<Rightarrow>
          (let w1 = clearTimeout h w
           in w1\<lparr>manager := (manager w1)\<lparr>hideTimeout := None\<rparr>\<rparr>))"

text \<open>The object spread \<^verbatim>\<open>{ ...this.state, ...newState }\<close>: a field of \<open>newState\<close> that is
  present wins.\<close>

definition spread :: "ToolbarState \<Rightarrow> PartialToolbarState \<Rightarrow> ToolbarState" where
  "spread old newState =
     \<lparr>activeElement = (case new_activeElement newState of None \<Rightarrow> activeElement old | Some v \<Rightarrow> v),
      isVisible = (case new_isVisible newState of None \<Rightarrow> isVisible old | Some v \<Rightarrow> v),
      position = (case new_position newState of None \<Rightarrow> position old | Some v \<Rightarrow> v)\<rparr>"

definition setState :: "PartialToolbarState \<Rightarrow> world \<Rightarrow> world" where
  "setState newState w =
     (let w1 = w\<lparr>manager := (manager w)\<lparr>state := spread (state (manager w)) newState\<rparr>\<rparr>
      in w1\<lparr>trace := trace w1 @ map (\<lambda>callback. Published callback (getState w1)) (subscribers (manager w1))\<rparr>)"

definition cancelScheduledHide :: "world \<Rightarrow> world" where
  "cancelScheduledHide w = clearHideTimeout w"

definition hideToolbar :: "world \<Rightarrow> world" where
  "hideToolbar w =
     (let w1 = clearHideTimeout w;
          w2 = w1\<lparr>manager := (manager w1)\<lparr>activeElementOnChange := None\<rparr>\<rparr>
      in setState \<lparr>new_activeElement = Some None, new_isVisible = Some False, new_position = Some None\<rparr> w2)"

definition scheduleHide :: "nat \<Rightarrow> world \<Rightarrow> world" where
  "scheduleHide delay w =
     (let w1 = clearHideTimeout w;
          (h, w2) = setTimeout delay w1
      in w2\<lparr>manager := (manager w2)\<lparr>hideTimeout := Some h\<rparr>\<rparr>)"

text \<open>\<open>getPosition\<close> is \<open>None\<close> when the caller leaves the argument out. Its call is an
  argument of \<open>setState\<close>, so when it throws the state is not set.\<close>

definition showToolbar ::
  "ref \<Rightarrow> (TextInputElement \<Rightarrow> exn + ToolbarPosition) option \<Rightarrow> world \<Rightarrow> (exn + unit) \<times> world" where
  "showToolbar element getPosition w =
     (let w1 = clearHideTimeout w;
          w2 = w1\<lparr>manager := (manager w1)\<lparr>activeElementOnChange := props_onChange (elements w1 element)\<rparr>\<rparr>
      in case (case getPosition of None \<Rightarrow> defaultGetPosition | Some g \<Rightarrow> g) (elements w2 element) of
           Inl e \<Rightarrow> (Inl e, w2)
         | Inr p \<Rightarrow>
             (Inr (),
              setState \<lparr>new_activeElement = Some (Some element), new_isVisible = Some True,
                        new_position = Some (Some p)\<rparr> w2))"

text \<open>The closure \<^verbatim>\<open>() => { this.subscribers.delete(callback) }\<close> that \<open>subscribe\<close> returns:
  all it holds is the callback.\<close>

datatype unsubscribe = Unsubscribe callback

definition subscribe :: "callback \<Rightarrow> world \<Rightarrow> unsubscribe \<times> world" where
  "subscribe callback w =
     (Unsubscribe callback,
      w\<lparr>manager := (manager w)\<lparr>subscribers := set_add callback (subscribers (manager w))\<rparr>\<rparr>)"

fun call_unsubscribe :: "unsubscribe \<Rightarrow> world \<Rightarrow> world" where
  "call_unsubscribe (Unsubscribe callback) w =
     w\<lparr>manager := (manager w)\<lparr>subscribers := set_delete callback (subscribers (manager w))\<rparr>\<rparr>"

section \<open>useFormattingToolbar: the handlers on an input, and the focus of the page\<close>

text \<open>
  \<^verbatim>\<open>handleFocus\<close> calls \<^verbatim>\<open>globalToolbarManager.showToolbar(e.currentTarget, getPosition)\<close>
  with the hook's \<^verbatim>\<open>getPosition = defaultGetPosition\<close> default, and \<^verbatim>\<open>handleBlur\<close> calls
  \<^verbatim>\<open>globalToolbarManager.scheduleHide(hideDelay)\<close> with the default \<open>500\<close>. An exception
  of an event handler does not reach the code that moved the focus.
\<close>

definition handleFocus :: "ToolbarConfig \<Rightarrow> ref \<Rightarrow> world \<Rightarrow> world" where
  "handleFocus config el w =
     (let getPosition = (case config_getPosition config of None \<Rightarrow> defaultGetPosition | Some g \<Rightarrow> g)
      in snd (showToolbar el (Some getPosition) w))"

definition handleBlur :: "ToolbarConfig \<Rightarrow> world \<Rightarrow> world" where
  "handleBlur config w =
     (let hideDelay = (case config_hideDelay config of None \<Rightarrow> 500 | Some d \<Rightarrow> d)
      in scheduleHide hideDelay w)"

text \<open>
  The focus moving to \<open>dest\<close> (\<open>None\<close>: to something that is not an input): nothing
  happens when it is there already; otherwise the input that had the focus gets its blur
  event, then the destination has the focus and gets its focus event. An input that is not
  bound has no handler of the repository.
\<close>

definition fireBlur :: "world \<Rightarrow> world" where
  "fireBlur w =
     (case focused w of
        None \<Rightarrow> w
      | Some old \<Rightarrow> (case bindings w old of None \<Rightarrow> w | Some config \<Rightarrow> handleBlur config w))"

definition fireFocus :: "ref \<Rightarrow> world \<Rightarrow> world" where
  "fireFocus el w = (case bindings w el of None \<Rightarrow> w | Some config \<Rightarrow> handleFocus config el w)"

definition moveFocus :: "ref option \<Rightarrow> world \<Rightarrow> world" where
  "moveFocus dest w =
     (if focused w = dest then w
      else (let w1 = fireBlur w;
                w2 = w1\<lparr>focused := dest\<rparr>
            in case dest of None \<Rightarrow> w2 | Some el \<Rightarrow> fireFocus el w2))"

text \<open>\<^verbatim>\<open>element.focus()\<close>: the call is recorded, then the focus moves.\<close>

definition focusElement :: "ref \<Rightarrow> world \<Rightarrow> world" where
  "focusElement el w = moveFocus (Some el) (w\<lparr>trace := trace w @ [Focused el]\<rparr>)"

section \<open>globalToolbarManager.ts: applyFormat\<close>

definition applyFormat :: "FormatterFunction \<Rightarrow> handler option \<Rightarrow> world \<Rightarrow> (exn + unit) \<times> world" where
  "applyFormat formatter onChange w =
     (case activeElement (state (manager w)) of
        None \<Rightarrow> (Inr (), w\<lparr>trace := trace w @ [ConsoleWarn ''No active element found for formatting'']\<rparr>)
      | Some el \<Rightarrow>
          (case applyFormattingOnSelection (elements w el) formatter of
             Inl e \<Rightarrow> (Inl e, w)
           | Inr newValue \<Rightarrow>
               (let onChangeHandler = (case onChange of Some h \<Rightarrow> Some h | None \<Rightarrow> activeElementOnChange (manager w));
                    w1 = updateElementValue el newValue onChangeHandler w
                in (Inr (), focusElement el w1))))"

section \<open>Timers firing and time passing\<close>

text \<open>
  The runtime runs the callback of a pending timer once its deadline has passed, between
  two operations and never inside one: the timer leaves the pending set and
  \<open>hideToolbar\<close> runs. A handle that is not pending, or not yet due, fires nothing.
\<close>

definition timerFires :: "timeout \<Rightarrow> world \<Rightarrow> world" where
  "timerFires h w =
     (case find (\<lambda>t. fst t = h \<and> snd t \<le> clock w) (timers w) of
        None \<Rightarrow> w
      | Some t \<Rightarrow>
          (let w1 = clearTimeout h w;
               w2 = w1\<lparr>trace := trace w1 @ [TimerFired h (clock w1)]\<rparr>
           in hideToolbar w2))"

definition elapse :: "nat \<Rightarrow> world \<Rightarrow> world" where
  "elapse ms w = w\<lparr>clock := clock w + ms\<rparr>"

text \<open>
  Time passing with a runtime that is never late: the pending timers that fall due up to
  the deadline fire in the order of their deadlines, each at its own deadline, and then
  the clock stands at the deadline. Firing a timer removes it and starts no other, which
  is why the loop ends.
\<close>

fun earliest :: "(timeout \<times> nat) list \<Rightarrow> (timeout \<times> nat) option" where
  "earliest [] = None"
| "earliest (t # ts) =
     (case earliest ts of
        None \<Rightarrow> Some t
      | Some t' \<Rightarrow> if snd t \<le> snd t' then Some t else Some t')"

lemma earliest_mem: "earliest ts = Some t \<Longrightarrow> t \<in> set ts"
  by (induction ts arbitrary: t) (auto split: option.splits if_splits)

lemma timers_clearHideTimeout_le: "length (timers (clearHideTimeout w)) \<le> length (timers w)"
  by (simp add: clearHideTimeout_def clearTimeout_def Let_def split: option.splits)

lemma timers_setState [simp]: "timers (setState p w) = timers w"
  by (simp add: setState_def Let_def)

lemma timers_hideToolbar_le: "length (timers (hideToolbar w)) \<le> length (timers w)"
  using timers_clearHideTimeout_le [of w] by (simp add: hideToolbar_def Let_def)

lemma timerFires_decreases:
  assumes "t \<in> set (timers w)" and "snd t \<le> clock w"
  shows "length (timers (timerFires (fst t) w)) < length (timers w)"
proof -
  let ?w1 = "clearTimeout (fst t) w"
  from assms have "\<exists>u. u \<in> set (timers w) \<and> fst u = fst t \<and> snd u \<le> clock w"
    by blast
  then have "find (\<lambda>u. fst u = fst t \<and> snd u \<le> clock w) (timers w) \<noteq> None"
    unfolding find_None_iff by blast
  then obtain u where u: "find (\<lambda>u. fst u = fst t \<and> snd u \<le> clock w) (timers w) = Some u"
    by blast
  have "length (filter (\<lambda>u. fst u \<noteq> fst t) (timers w)) < length (timers w)"
    using assms(1) by (intro length_filter_less[of t]) auto
  moreover have "length (timers (timerFires (fst t) w))
      \<le> length (filter (\<lambda>u. fst u \<noteq> fst t) (timers w))"
    using timers_hideToolbar_le [of "?w1\<lparr>trace := trace ?w1 @ [TimerFired (fst t) (clock ?w1)]\<rparr>"]
    by (simp add: timerFires_def u Let_def clearTimeout_def)
  ultimately show ?thesis by simp
qed

function advanceTo :: "nat \<Rightarrow> world \<Rightarrow> world" where
  "advanceTo deadline w =
     (case earliest (timers w) of
        None \<Rightarrow> w\<lparr>clock := max (clock w) deadline\<rparr>
      | Some t \<Rightarrow>
          if snd t \<le> deadline
          then advanceTo deadline (timerFires (fst t) (w\<lparr>clock := max (clock w) (snd t)\<rparr>))
          else w\<lparr>clock := max (clock w) deadline\<rparr>)"
  by pat_completeness auto
termination
proof (relation "measure (\<lambda>(deadline, w). length (timers w))")
  show "wf (measure (\<lambda>(deadline, w). length (timers w)))" by simp
next
  fix deadline :: nat and w :: world and t :: "timeout \<times> nat"
  assume e: "earliest (timers w) = Some t" and "snd t \<le> deadline"
  let ?w = "w\<lparr>clock := max (clock w) (snd t)\<rparr>"
  have "t \<in> set (timers ?w)" using earliest_mem [OF e] by simp
  moreover have "snd t \<le> clock ?w" by simp
  ultimately have "length (timers (timerFires (fst t) ?w)) < length (timers ?w)"
    by (rule timerFires_decreases)
  then show "((deadline, timerFires (fst t) ?w), (deadline, w)) \<in> measure (\<lambda>(deadline, w). length (timers w))"
    by simp
qed

declare advanceTo.simps [simp del]

definition advanceTime :: "nat \<Rightarrow> world \<Rightarrow> world" where
  "advanceTime ms w = advanceTo (clock w + ms) w"

section \<open>Runs of the coordinator\<close>

text \<open>
  One event of a run: a call of a public method, a call of a closure that \<open>subscribe\<close>
  returned, a timer firing, time passing, the page changing an element (the user types or
  selects), the focus moving (the user clicks or tabs), or an input getting or losing the
  handlers of a hook (a component mounts or unmounts). An exception of \<open>showToolbar\<close> or
  \<open>applyFormat\<close> goes to the caller; the world stays as the method left it.
\<close>

datatype op =
    ShowToolbar ref "(TextInputElement \<Rightarrow> exn + ToolbarPosition) option"
  | HideToolbar
  | ScheduleHide nat
  | CancelScheduledHide
  | ApplyFormat FormatterFunction "handler option"
  | Subscribe callback
  | CallUnsubscribe unsubscribe
  | TimerFires timeout
  | Elapse nat
  | AdvanceTime nat
  | ElementEdited ref TextInputElement
  | FocusMoved "ref option"
  | HookBound ref "ToolbarConfig option"

fun step :: "op \<Rightarrow> world \<Rightarrow> world" where
  "step (ShowToolbar element getPosition) w = snd (showToolbar element getPosition w)"
| "step HideToolbar w = hideToolbar w"
| "step (ScheduleHide delay) w = scheduleHide delay w"
| "step CancelScheduledHide w = cancelScheduledHide w"
| "step (ApplyFormat formatter onChange) w = snd (applyFormat formatter onChange w)"
| "step (Subscribe callback) w = snd (subscribe callback w)"
| "step (CallUnsubscribe u) w = call_unsubscribe u w"
| "step (TimerFires h) w = timerFires h w"
| "step (Elapse ms) w = elapse ms w"
| "step (AdvanceTime ms) w = advanceTime ms w"
| "step (ElementEdited element e) w = w\<lparr>elements := (elements w)(element := e)\<rparr>"
| "step (FocusMoved dest) w = moveFocus dest w"
| "step (HookBound element config) w = w\<lparr>bindings := (bindings w)(element := config)\<rparr>"

fun run :: "op list \<Rightarrow> world \<Rightarrow> world" where
  "run [] w = w"
| "run (a # as) w = run as (step a w)"

text \<open>The events that are the runtime's alone: no method of the manager is called.\<close>

fun time_passes :: "op \<Rightarrow> bool" where
  "time_passes (TimerFires h) = True"
| "time_passes (Elapse ms) = True"
| "time_passes (AdvanceTime ms) = True"
| "time_passes _ = False"

subsection \<open>What an observer sees\<close>

text \<open>The snapshots handed to subscribers, each with the callback that received it, and
  the deferred hides that fired, each with its handle and the time it fired at.\<close>

fun published_of :: "effect \<Rightarrow> (callback \<times> ToolbarState) option" where
  "published_of (Published callback s) = Some (callback, s)"
| "published_of _ = None"

definition published :: "world \<Rightarrow> (callback \<times> ToolbarState) list" where
  "published w = List.map_filter published_of (trace w)"

fun fired_of :: "effect \<Rightarrow> (timeout \<times> nat) option" where
  "fired_of (TimerFired h at) = Some (h, at)"
| "fired_of _ = None"

definition hides_fired :: "world \<Rightarrow> (timeout \<times> nat) list" where
  "hides_fired w = List.map_filter fired_of (trace w)"

text \<open>The invariant of the data model: visible exactly when element and position are there.\<close>

definition visible_iff_present :: "ToolbarState \<Rightarrow> bool" where
  "visible_iff_present s = (isVisible s = (activeElement s \<noteq> None \<and> position s \<noteq> None))"

definition hidden_state :: ToolbarState where
  "hidden_state = \<lparr>activeElement = None, isVisible = False, position = None\<rparr>"

text \<open>The invariant carried along a run: the current state and every published snapshot.\<close>

definition visibility_inv :: "world \<Rightarrow> bool" where
  "visibility_inv w =
     (visible_iff_present (getState w) \<and>
      list_all (\<lambda>p. visible_iff_present (snd p)) (published w))"

text \<open>The single slot of the deferred hide: nothing is pending, or one timer is and
  \<open>hideTimeout\<close> holds its handle.\<close>

fun slot_ok :: "(timeout \<times> nat) list \<Rightarrow> timeout option \<Rightarrow> bool" where
  "slot_ok [] handle = True"
| "slot_ok [t] handle = (handle = Some (fst t))"
| "slot_ok (t # u # ts) handle = False"

definition single_slot :: "world \<Rightarrow> bool" where
  "single_slot w = slot_ok (timers w) (hideTimeout (manager w))"

text \<open>The world \<open>applyFormat\<close> has made when it comes to the closing focus.\<close>

definition formatted_world :: "ref \<Rightarrow> string \<Rightarrow> handler option \<Rightarrow> world \<Rightarrow> world" where
  "formatted_world el newValue onChange w =
     w\<lparr>elements := (elements w)(el := (elements w el)\<lparr>elem_value := Some newValue\<rparr>),
       trace := trace w @ [ValueWritten el newValue, EventDispatched el ''input'' True]
         @ (case (case onChange of Some h \<Rightarrow> Some h | None \<Rightarrow> activeElementOnChange (manager w)) of
              None \<Rightarrow> []
            | Some h \<Rightarrow> [OnChangeCalled h \<lparr>currentTarget = el, target = el\<rparr>])\<rparr>"




subsection \<open>Concrete inputs\<close>

definition example_element :: TextInputElement where
  "example_element =
     \<lparr>selectionEnd = Some 5, selectionStart = Some 0, elem_value = Some ''hello world'',
      props_onChange = Some 3, rect_left = 10, rect_bottom = 20\<rparr>"

definition example_elements :: "ref \<Rightarrow> TextInputElement" where
  "example_elements = (\<lambda>r. example_element)"

definition example_getPosition :: "TextInputElement \<Rightarrow> exn + ToolbarPosition" where
  "example_getPosition = (\<lambda>e. Inr \<lparr>pos_x = 40, pos_y = 60\<rparr>)"

definition example_run :: "op list" where
  "example_run =
     [Subscribe 7, ShowToolbar 1 (Some example_getPosition), ScheduleHide 500, AdvanceTime 500]"

definition example_shown :: "op list" where
  "example_shown = [Subscribe 7, ShowToolbar 1 (Some example_getPosition)]"

section \<open>The selection formatter as the specification words it\<close>

text \<open>
  The specification's \<open>computeFormattedValue(currentValue, selectionStart, selectionEnd,
  formatter)\<close>, written from its sentences and not from the code: the value is split into
  the ranges \<open>[0, selectionStart)\<close>, \<open>[selectionStart, selectionEnd)\<close> and
  \<open>[selectionEnd, end)\<close>, a missing offset counts as \<open>0\<close>, and a range \<open>[a, b)\<close> of a
  string is its characters at the positions \<open>i\<close> with \<open>a \<le> i < b\<close>.
\<close>

definition slice :: "string \<Rightarrow> int \<Rightarrow> int \<Rightarrow> string" where
  "slice s a b = map (\<lambda>i. s ! i) (filter (\<lambda>i. a \<le> int i \<and> int i < b) [0..<length s])"

definition computeFormattedValue ::
  "string \<Rightarrow> int option \<Rightarrow> int option \<Rightarrow> FormatterFunction \<Rightarrow> exn + string" where
  "computeFormattedValue currentValue selStart selEnd formatter =
     (let s = (case selStart of None \<Rightarrow> 0 | Some n \<Rightarrow> n);
          e = (case selEnd of None \<Rightarrow> 0 | Some n \<Rightarrow> n)
      in if e > s then
           (case formatter (slice currentValue s e) of
              Inl x \<Rightarrow> Inl x
            | Inr middle \<Rightarrow>
                Inr (slice currentValue 0 s @ middle @ slice currentValue e (int (length currentValue))))
         else formatter currentValue)"

text \<open>An offset brought into \<open>[0, length]\<close>.\<close>

definition clamp :: "string \<Rightarrow> int \<Rightarrow> nat" where
  "clamp s i = nat (min (max i 0) (int (length s)))"

text \<open>The formatter of the examples, \<^verbatim>\<open>(text) => text.toUpperCase()\<close>, on ASCII letters.\<close>

definition upper_char :: "char \<Rightarrow> char" where
  "upper_char c = (let n = (of_char c :: nat) in if 97 \<le> n \<and> n \<le> 122 then char_of (n - 32) else c)"

definition toUpperCase :: FormatterFunction where
  "toUpperCase text = Inr (map upper_char text)"







section \<open>Each method as one update of the world\<close>

lemma clearHideTimeout_eq:
  "clearHideTimeout w =
     w\<lparr>manager := (manager w)\<lparr>hideTimeout := None\<rparr>,
       timers := (case hideTimeout (manager w) of
                    None \<Rightarrow> timers w
                  | Some h \<Rightarrow> filter (\<lambda>t. fst t \<noteq> h) (timers w))\<rparr>"
  by (cases w; cases "manager w")
     (simp add: clearHideTimeout_def clearTimeout_def Let_def split: option.splits)

lemma setState_eq:
  "setState p w =
     w\<lparr>manager := (manager w)\<lparr>state := spread (state (manager w)) p\<rparr>,
       trace := trace w @ map (\<lambda>callback. Published callback (spread (state (manager w)) p))
                            (subscribers (manager w))\<rparr>"
  by (simp add: setState_def Let_def getState_def)

lemma hideToolbar_eq:
  "hideToolbar w =
     w\<lparr>manager := (manager w)\<lparr>hideTimeout := None, activeElementOnChange := None, state := hidden_state\<rparr>,
       timers := (case hideTimeout (manager w) of
                    None \<Rightarrow> timers w
                  | Some h \<Rightarrow> filter (\<lambda>t. fst t \<noteq> h) (timers w)),
       trace := trace w @ map (\<lambda>callback. Published callback hidden_state) (subscribers (manager w))\<rparr>"
  by (simp add: hideToolbar_def Let_def clearHideTimeout_eq setState_eq spread_def hidden_state_def)

lemma scheduleHide_eq:
  "scheduleHide delay w =
     w\<lparr>manager := (manager w)\<lparr>hideTimeout := Some (nextTimeout w)\<rparr>,
       timers := (case hideTimeout (manager w) of
                    None \<Rightarrow> timers w
                  | Some h \<Rightarrow> filter (\<lambda>t. fst t \<noteq> h) (timers w)) @ [(nextTimeout w, clock w + timer_delay (runtime w) delay)],
       nextTimeout := Suc (nextTimeout w)\<rparr>"
  by (simp add: scheduleHide_def Let_def clearHideTimeout_eq setTimeout_def)

lemma showToolbar_eq:
  "showToolbar element getPosition w =
     (let w2 = w\<lparr>manager := (manager w)\<lparr>hideTimeout := None,
                                          activeElementOnChange := props_onChange (elements w element)\<rparr>,
                 timers := (case hideTimeout (manager w) of
                              None \<Rightarrow> timers w
                            | Some h \<Rightarrow> filter (\<lambda>t. fst t \<noteq> h) (timers w))\<rparr>
      in case (case getPosition of None \<Rightarrow> defaultGetPosition | Some g \<Rightarrow> g) (elements w element) of
           Inl e \<Rightarrow> (Inl e, w2)
         | Inr p \<Rightarrow>
             (Inr (),
              w2\<lparr>manager := (manager w2)\<lparr>state := \<lparr>activeElement = Some element, isVisible = True,
                                                   position = Some p\<rparr>\<rparr>,
                 trace := trace w @ map (\<lambda>callback. Published callback
                                           \<lparr>activeElement = Some element, isVisible = True, position = Some p\<rparr>)
                                      (subscribers (manager w))\<rparr>))"
  by (simp add: showToolbar_def Let_def clearHideTimeout_eq setState_eq spread_def split: sum.splits)

lemma handleBlur_eq:
  "handleBlur config w = scheduleHide (case config_hideDelay config of None \<Rightarrow> 500 | Some d \<Rightarrow> d) w"
  by (simp add: handleBlur_def)

lemma handleFocus_eq:
  "handleFocus config el w =
     snd (showToolbar el (Some (case config_getPosition config of None \<Rightarrow> defaultGetPosition | Some g \<Rightarrow> g)) w)"
  by (simp add: handleFocus_def)

lemma focusElement_focused:
  "focused w = Some el \<Longrightarrow> focusElement el w = w\<lparr>trace := trace w @ [Focused el]\<rparr>"
  by (simp add: focusElement_def moveFocus_def)


lemma applyFormat_eq:
  "applyFormat formatter onChange w =
     (case activeElement (state (manager w)) of
        None \<Rightarrow> (Inr (), w\<lparr>trace := trace w @ [ConsoleWarn ''No active element found for formatting'']\<rparr>)
      | Some el \<Rightarrow>
          (case applyFormattingOnSelection (elements w el) formatter of
             Inl e \<Rightarrow> (Inl e, w)
           | Inr newValue \<Rightarrow>
               (Inr (),
                focusElement el
                  (w\<lparr>elements := (elements w)(el := (elements w el)\<lparr>elem_value := Some newValue\<rparr>),
                     trace := trace w @ [ValueWritten el newValue, EventDispatched el ''input'' True]
                       @ (case (case onChange of Some h \<Rightarrow> Some h | None \<Rightarrow> activeElementOnChange (manager w)) of
                            None \<Rightarrow> []
                          | Some h \<Rightarrow> [OnChangeCalled h \<lparr>currentTarget = el, target = el\<rparr>])\<rparr>))))"
  by (simp add: applyFormat_def updateElementValue_def Let_def split: option.splits sum.splits)

lemmas eval_simps =
  initial_world_def initial_manager_def showToolbar_eq hideToolbar_eq scheduleHide_eq
  applyFormat_eq subscribe_def set_add_def set_delete_def advanceTime_def advanceTo.simps
  timerFires_def clearTimeout_def elapse_def cancelScheduledHide_def clearHideTimeout_eq Let_def
  published_def hides_fired_def getState_def hidden_state_def visible_iff_present_def
  timer_delay_def handleBlur_def handleFocus_def fireBlur_def fireFocus_def moveFocus_def
  focusElement_def

lemmas example_defs =
  example_run_def example_elements_def example_getPosition_def example_element_def

subsection \<open>What a list of effects shows an observer\<close>

lemma map_filter_append:
  "List.map_filter f (xs @ ys) = List.map_filter f xs @ List.map_filter f ys"
  by (simp add: List.map_filter_def)

lemma map_filter_published:
  "List.map_filter published_of (map (\<lambda>callback. Published callback s) cs) = map (\<lambda>callback. (callback, s)) cs"
  by (induction cs) simp_all

lemma map_filter_fired_published:
  "List.map_filter fired_of (map (\<lambda>callback. Published callback s) cs) = []"
  by (induction cs) simp_all

section \<open>The visibility invariant\<close>

lemma visibility_inv_hideToolbar: "visibility_inv w \<Longrightarrow> visibility_inv (hideToolbar w)"
  by (auto simp: visibility_inv_def hideToolbar_eq getState_def published_def map_filter_append
      map_filter_published list_all_iff visible_iff_present_def hidden_state_def)

lemma visibility_inv_showToolbar:
  "visibility_inv w \<Longrightarrow> visibility_inv (snd (showToolbar element getPosition w))"
  by (auto simp: visibility_inv_def showToolbar_eq Let_def getState_def published_def map_filter_append
      map_filter_published list_all_iff visible_iff_present_def split: sum.splits)

lemma visibility_inv_scheduleHide: "visibility_inv w \<Longrightarrow> visibility_inv (scheduleHide delay w)"
  by (simp add: visibility_inv_def scheduleHide_eq getState_def published_def)

lemma visibility_inv_cancelScheduledHide: "visibility_inv w \<Longrightarrow> visibility_inv (cancelScheduledHide w)"
  by (simp add: visibility_inv_def cancelScheduledHide_def clearHideTimeout_eq getState_def published_def)

lemma visibility_inv_untouched:
  "manager w' = manager w \<Longrightarrow> published w' = published w \<Longrightarrow> visibility_inv w' = visibility_inv w"
  by (simp add: visibility_inv_def getState_def)

lemma visibility_inv_fireBlur: "visibility_inv w \<Longrightarrow> visibility_inv (fireBlur w)"
  by (simp add: fireBlur_def handleBlur_eq visibility_inv_scheduleHide split: option.splits)

lemma visibility_inv_fireFocus: "visibility_inv w \<Longrightarrow> visibility_inv (fireFocus el w)"
  by (simp add: fireFocus_def handleFocus_eq visibility_inv_showToolbar split: option.splits)

lemma visibility_inv_moveFocus: "visibility_inv w \<Longrightarrow> visibility_inv (moveFocus dest w)"
proof -
  assume inv: "visibility_inv w"
  have "visibility_inv ((fireBlur w)\<lparr>focused := d\<rparr>) = visibility_inv (fireBlur w)" for d
    by (rule visibility_inv_untouched) (simp_all add: published_def)
  then have moved: "visibility_inv ((fireBlur w)\<lparr>focused := d\<rparr>)" for d
    using visibility_inv_fireBlur [OF inv] by simp
  show ?thesis
  proof (cases dest)
    case None
    with inv moved [of None] show ?thesis by (simp add: moveFocus_def Let_def)
  next
    case (Some el)
    with inv visibility_inv_fireFocus [OF moved [of "Some el"], of el] show ?thesis
      by (simp add: moveFocus_def Let_def)
  qed
qed

lemma visibility_inv_focusElement: "visibility_inv w \<Longrightarrow> visibility_inv (focusElement el w)"
proof -
  assume inv: "visibility_inv w"
  have "visibility_inv (w\<lparr>trace := trace w @ [Focused el]\<rparr>) = visibility_inv w"
    by (rule visibility_inv_untouched) (simp_all add: published_def map_filter_append)
  with inv have "visibility_inv (w\<lparr>trace := trace w @ [Focused el]\<rparr>)" by simp
  then show ?thesis unfolding focusElement_def by (rule visibility_inv_moveFocus)
qed

lemma visibility_inv_applyFormat:
  assumes inv: "visibility_inv w"
  shows "visibility_inv (snd (applyFormat formatter onChange w))"
proof (cases "activeElement (state (manager w))")
  case None
  with inv show ?thesis
    by (simp add: applyFormat_eq visibility_inv_def getState_def published_def map_filter_append)
next
  case (Some el)
  show ?thesis
  proof (cases "applyFormattingOnSelection (elements w el) formatter")
    case (Inl e)
    with Some inv show ?thesis by (simp add: applyFormat_eq)
  next
    case (Inr newValue)
    let ?w1 = "w\<lparr>elements := (elements w)(el := (elements w el)\<lparr>elem_value := Some newValue\<rparr>),
                 trace := trace w @ [ValueWritten el newValue, EventDispatched el ''input'' True]
                   @ (case (case onChange of Some h \<Rightarrow> Some h | None \<Rightarrow> activeElementOnChange (manager w)) of
                        None \<Rightarrow> []
                      | Some h \<Rightarrow> [OnChangeCalled h \<lparr>currentTarget = el, target = el\<rparr>])\<rparr>"
    have "visibility_inv ?w1 = visibility_inv w"
      by (rule visibility_inv_untouched)
         (simp_all add: published_def map_filter_append split: option.splits)
    with inv have "visibility_inv ?w1" by simp
    then have "visibility_inv (focusElement el ?w1)" by (rule visibility_inv_focusElement)
    with Some Inr show ?thesis by (simp add: applyFormat_eq)
  qed
qed

lemma visibility_inv_subscribe: "visibility_inv w \<Longrightarrow> visibility_inv (snd (subscribe callback w))"
  by (simp add: visibility_inv_def subscribe_def getState_def published_def)

lemma visibility_inv_call_unsubscribe: "visibility_inv w \<Longrightarrow> visibility_inv (call_unsubscribe u w)"
  by (cases u) (simp add: visibility_inv_def getState_def published_def)

lemma visibility_inv_timerFires: "visibility_inv w \<Longrightarrow> visibility_inv (timerFires h w)"
proof -
  assume inv: "visibility_inv w"
  let ?w1 = "clearTimeout h w"
  let ?w2 = "?w1\<lparr>trace := trace ?w1 @ [TimerFired h (clock ?w1)]\<rparr>"
  have "visibility_inv ?w2"
    using inv by (simp add: visibility_inv_def clearTimeout_def getState_def published_def
        map_filter_append)
  then have "visibility_inv (hideToolbar ?w2)" by (rule visibility_inv_hideToolbar)
  with inv show ?thesis by (simp add: timerFires_def Let_def split: option.splits)
qed

lemma visibility_inv_clock: "visibility_inv (w\<lparr>clock := c\<rparr>) = visibility_inv w"
  by (simp add: visibility_inv_def getState_def published_def)

lemma visibility_inv_advanceTo: "visibility_inv w \<Longrightarrow> visibility_inv (advanceTo deadline w)"
proof (induction deadline w rule: advanceTo.induct)
  case (1 deadline w)
  show ?case
  proof (cases "earliest (timers w)")
    case None
    with "1.prems" show ?thesis by (simp add: advanceTo.simps [of deadline w] visibility_inv_clock)
  next
    case (Some t)
    show ?thesis
    proof (cases "snd t \<le> deadline")
      case True
      have "visibility_inv (timerFires (fst t) (w\<lparr>clock := max (clock w) (snd t)\<rparr>))"
        using "1.prems" by (simp add: visibility_inv_timerFires visibility_inv_clock)
      then have "visibility_inv (advanceTo deadline (timerFires (fst t) (w\<lparr>clock := max (clock w) (snd t)\<rparr>)))"
        using "1.IH" Some True by blast
      with Some True show ?thesis by (simp add: advanceTo.simps [of deadline w])
    next
      case False
      with Some "1.prems" show ?thesis by (simp add: advanceTo.simps [of deadline w] visibility_inv_clock)
    qed
  qed
qed

lemma visibility_inv_step: "visibility_inv w \<Longrightarrow> visibility_inv (step a w)"
proof (cases a)
  case (ElementEdited element e)
  assume "visibility_inv w"
  with ElementEdited show ?thesis by (simp add: visibility_inv_def getState_def published_def)
next
  case (HookBound element config)
  assume "visibility_inv w"
  with HookBound show ?thesis by (simp add: visibility_inv_def getState_def published_def)
next
  case (Elapse ms)
  assume "visibility_inv w"
  with Elapse show ?thesis by (simp add: elapse_def visibility_inv_clock)
qed (simp_all add: visibility_inv_hideToolbar visibility_inv_showToolbar visibility_inv_scheduleHide
     visibility_inv_cancelScheduledHide visibility_inv_applyFormat visibility_inv_subscribe
     visibility_inv_call_unsubscribe visibility_inv_timerFires visibility_inv_advanceTo advanceTime_def
     visibility_inv_moveFocus)

lemma visibility_inv_run: "visibility_inv w \<Longrightarrow> visibility_inv (run ops w)"
  by (induction ops arbitrary: w) (simp_all add: visibility_inv_step)

lemma visibility_inv_initial: "visibility_inv (initial_world rt els)"
  by (simp add: visibility_inv_def initial_world_def initial_manager_def getState_def published_def
      visible_iff_present_def)

text \<open>
  C1. Whatever the events of a run from the initial state (calls of \<open>showToolbar\<close>,
  \<open>hideToolbar\<close>, \<open>scheduleHide\<close>, \<open>cancelScheduledHide\<close>, \<open>applyFormat\<close>, \<open>subscribe\<close>
  and of the closures it returns, timers firing, time passing, elements edited, the focus
  moving with the hook's handlers running, inputs bound and unbound), in either runtime, in the
  state reached \<open>isVisible\<close> holds exactly when \<open>activeElement\<close> and \<open>position\<close> are both
  non-null, and the same is true of every snapshot that was handed to a subscriber.
\<close>

theorem visibility_invariant:
  "visible_iff_present (getState (run ops (initial_world rt els))) \<and>
   list_all (\<lambda>p. visible_iff_present (snd p)) (published (run ops (initial_world rt els)))"
  using visibility_inv_run [OF visibility_inv_initial, of ops rt els]
  by (simp add: visibility_inv_def)

theorem visibility_invariant_witness:
  "visible_iff_present (getState (run example_run (initial_world NodeJS example_elements))) \<and>
   list_all (\<lambda>p. visible_iff_present (snd p)) (published (run example_run (initial_world NodeJS example_elements))) \<and>
   published (run example_run (initial_world NodeJS example_elements)) =
     [(7, \<lparr>activeElement = Some 1, isVisible = True, position = Some \<lparr>pos_x = 40, pos_y = 60\<rparr>\<rparr>),
      (7, \<lparr>activeElement = None, isVisible = False, position = None\<rparr>)]"
  using visibility_invariant [of example_run NodeJS example_elements]
  by (simp add: example_defs eval_simps)

section \<open>The selection formatter\<close>

lemma filter_range: "filter (\<lambda>i. lo \<le> i \<and> i < hi) [0..<n] = [lo..<min hi n]"
proof (induction n)
  case 0
  show ?case by simp
next
  case (Suc n)
  have "filter (\<lambda>i. lo \<le> i \<and> i < hi) [0..<Suc n]
      = [lo..<min hi n] @ (if lo \<le> n \<and> n < hi then [n] else [])"
    using Suc by simp
  also have "\<dots> = [lo..<min hi (Suc n)]"
  proof (cases "n < hi")
    case True
    then have "min hi n = n" and "min hi (Suc n) = Suc n" by simp_all
    with True show ?thesis by simp
  next
    case False
    then have "min hi n = hi" and "min hi (Suc n) = hi" by simp_all
    with False show ?thesis by simp
  qed
  finally show ?case .
qed

lemma map_nth_range: "hi \<le> length s \<Longrightarrow> map (\<lambda>i. s ! i) [lo..<hi] = drop lo (take hi s)"
  by (rule nth_equalityI) auto

lemma slice_eq: "slice s a b = drop (nat a) (take (nat b) s)"
proof -
  have "filter (\<lambda>i. a \<le> int i \<and> int i < b) [0..<length s]
      = filter (\<lambda>i. nat a \<le> i \<and> i < nat b) [0..<length s]"
    by (rule filter_cong) auto
  then have "slice s a b = map (\<lambda>i. s ! i) [nat a..<min (nat b) (length s)]"
    by (simp add: slice_def filter_range)
  also have "\<dots> = drop (nat a) (take (min (nat b) (length s)) s)"
    by (rule map_nth_range) simp
  also have "\<dots> = drop (nat a) (take (nat b) s)"
    by (simp add: min_def)
  finally show ?thesis .
qed

lemma take_drop_clamped:
  "take (min q (length s) - min p (length s)) (drop (min p (length s)) s) = drop p (take q s)"
proof (cases "p \<le> length s")
  case True
  then have "min p (length s) = p" by simp
  moreover have "take (min q (length s) - p) (drop p s) = drop p (take q s)"
    by (simp add: drop_take min_def)
  ultimately show ?thesis by simp
next
  case False
  then show ?thesis by simp
qed

lemma nat_clamp: "nat (min (max a 0) (int n)) = min (nat a) n"
  by (simp add: min_def max_def nat_le_iff)

lemma nat_diff_clamp:
  "a \<le> b \<Longrightarrow>
     nat (min (max b 0) (int n) - min (max a 0) (int n)) = min (nat b) n - min (nat a) n"
  by (simp add: nat_diff_distrib' nat_clamp)

lemma clamp_mono: "(a::int) \<le> b \<Longrightarrow> min (max a 0) n \<le> min (max b 0) n"
  by (meson max.mono min.mono order_refl)

lemma substring_ordered:
  assumes "a \<le> b"
  shows "substring s a (Some b) = drop (nat a) (take (nat b) s)"
proof -
  let ?len = "int (length s)"
  let ?fs = "min (max a 0) ?len" and ?fe = "min (max b 0) ?len"
  have le: "?fs \<le> ?fe" using assms by (rule clamp_mono)
  have "substring s a (Some b)
      = take (nat (max ?fs ?fe - min ?fs ?fe)) (drop (nat (min ?fs ?fe)) s)"
    unfolding substring_def Let_def by simp
  also have "\<dots> = take (nat (?fe - ?fs)) (drop (nat ?fs) s)"
    by (simp only: min_absorb1 [OF le] max_absorb2 [OF le])
  finally show ?thesis
    by (simp only: nat_diff_clamp [OF assms] nat_clamp take_drop_clamped)
qed

lemma substring_swap: "substring s a (Some b) = substring s b (Some a)"
  by (simp add: substring_def Let_def min.commute max.commute)

lemma substring_from_0: "substring s 0 (Some b) = take (nat b) s"
proof (cases "0 \<le> b")
  case True
  then show ?thesis by (simp add: substring_ordered)
next
  case False
  then have "substring s b (Some 0) = drop (nat b) (take (nat 0) s)"
    by (intro substring_ordered) simp
  with False show ?thesis by (simp add: substring_swap [of s 0 b])
qed

lemma substring_to_end: "substring s a None = drop (nat a) s"
proof -
  have full: "substring s a None = substring s a (Some (int (length s)))"
    by (simp add: substring_def Let_def)
  show ?thesis
  proof (cases "a \<le> int (length s)")
    case True
    then show ?thesis unfolding full by (simp add: substring_ordered)
  next
    case False
    then have "substring s (int (length s)) (Some a) = drop (length s) (take (nat a) s)"
      using substring_ordered [of "int (length s)" a s] by simp
    with False show ?thesis unfolding full by (simp add: substring_swap [of s a])
  qed
qed

lemma applyFormattingOnSelection_refines:
  "applyFormattingOnSelection element formatter =
     computeFormattedValue (case elem_value element of None \<Rightarrow> '''' | Some v \<Rightarrow> v)
       (selectionStart element) (selectionEnd element) formatter"
  by (simp add: applyFormattingOnSelection_def computeFormattedValue_def nullish_def Let_def
      substring_ordered substring_to_end substring_from_0 slice_eq split: option.splits sum.splits)

lemmas char_simps = toUpperCase_def upper_char_def char_of_def bit_Suc_0_iff

lemma uppercase_selection:
  "applyFormattingOnSelection (example_element\<lparr>selectionStart := Some 0, selectionEnd := Some 5\<rparr>) toUpperCase
     = Inr ''HELLO world''"
  by (simp add: applyFormattingOnSelection_def example_element_def nullish_def substring_def Let_def
      char_simps)

lemma uppercase_caret:
  "applyFormattingOnSelection (example_element\<lparr>selectionStart := Some 3, selectionEnd := Some 3\<rparr>) toUpperCase
     = Inr ''HELLO WORLD''"
  by (simp add: applyFormattingOnSelection_def example_element_def nullish_def substring_def Let_def
      char_simps)

text \<open>
  C2. For every element and formatter the routine of the code returns what the
  specification's \<open>computeFormattedValue\<close> returns on the element's value and offsets: with
  \<open>selectionEnd > selectionStart\<close> the ranges before and after the selection verbatim around
  the formatted selection, otherwise (equal offsets, or missing ones counted as \<open>0\<close>) the
  formatter applied to the whole value. For \<open>hello world\<close> and the uppercase formatter,
  the selection \<open>0, 5\<close> gives \<open>HELLO world\<close> and the caret at \<open>3\<close> gives \<open>HELLO WORLD\<close>.
\<close>

theorem selection_formatting:
  "applyFormattingOnSelection element formatter =
     computeFormattedValue (case elem_value element of None \<Rightarrow> '''' | Some v \<Rightarrow> v)
       (selectionStart element) (selectionEnd element) formatter \<and>
   applyFormattingOnSelection (example_element\<lparr>selectionStart := Some 0, selectionEnd := Some 5\<rparr>) toUpperCase
     = Inr ''HELLO world'' \<and>
   applyFormattingOnSelection (example_element\<lparr>selectionStart := Some 3, selectionEnd := Some 3\<rparr>) toUpperCase
     = Inr ''HELLO WORLD''"
  using applyFormattingOnSelection_refines [of element formatter] uppercase_selection uppercase_caret
  by simp

theorem selection_formatting_witness:
  "applyFormattingOnSelection (example_element\<lparr>selectionStart := Some 6, selectionEnd := None\<rparr>) toUpperCase
     = Inr ''HELLO WORLD'' \<and>
   applyFormattingOnSelection (example_element\<lparr>selectionStart := None, selectionEnd := Some 4\<rparr>) toUpperCase
     = Inr ''HELLo world'' \<and>
   applyFormattingOnSelection (example_element\<lparr>selectionStart := Some 6, selectionEnd := Some 11\<rparr>) toUpperCase
     = Inr ''hello WORLD''"
  using selection_formatting [of "example_element\<lparr>selectionStart := Some 6, selectionEnd := None\<rparr>" toUpperCase]
    selection_formatting [of "example_element\<lparr>selectionStart := None, selectionEnd := Some 4\<rparr>" toUpperCase]
    selection_formatting [of "example_element\<lparr>selectionStart := Some 6, selectionEnd := Some 11\<rparr>" toUpperCase]
  by (simp add: example_element_def computeFormattedValue_def slice_def Let_def char_simps)

lemma clamp_eq: "clamp s i = min (nat i) (length s)"
  by (simp add: clamp_def nat_clamp)

lemma take_clamp: "take (clamp s i) s = take (nat i) s"
  by (simp add: clamp_eq min_def)

lemma drop_clamp: "length xs \<le> length s \<Longrightarrow> drop (clamp s i) xs = drop (nat i) xs"
  by (simp add: clamp_eq min_def)

lemma applyFormattingOnSelection_selected:
  assumes "nullish (selectionStart element) 0 < nullish (selectionEnd element) 0"
  shows "applyFormattingOnSelection element formatter =
     (let v = nullish (elem_value element) '''';
          s = clamp v (nullish (selectionStart element) 0);
          e = clamp v (nullish (selectionEnd element) 0)
      in case formatter (drop s (take e v)) of
           Inl x \<Rightarrow> Inl x
         | Inr middle \<Rightarrow> Inr (take s v @ middle @ drop e v))"
  using assms
  by (simp add: applyFormattingOnSelection_def Let_def substring_ordered substring_to_end
      substring_from_0 take_clamp drop_clamp split: sum.splits)

lemma applyFormattingOnSelection_whole:
  assumes "\<not> nullish (selectionStart element) 0 < nullish (selectionEnd element) 0"
  shows "applyFormattingOnSelection element formatter = formatter (nullish (elem_value element) '''')"
  using assms by (simp add: applyFormattingOnSelection_def Let_def)

lemma applyFormattingOnSelection_returns:
  assumes "\<forall>t. \<not> isl (formatter t)"
  shows "\<not> isl (applyFormattingOnSelection element formatter)"
proof -
  have r: "\<exists>m. formatter t = Inr m" for t
    using assms by (cases "formatter t") (auto dest: spec [of _ t])
  show ?thesis
  proof (cases "nullish (selectionStart element) 0 < nullish (selectionEnd element) 0")
    case True
    let ?v = "nullish (elem_value element) ''''"
    obtain m where
      "formatter (substring ?v (nullish (selectionStart element) 0) (Some (nullish (selectionEnd element) 0)))
         = Inr m"
      using r by blast
    with True show ?thesis by (simp add: applyFormattingOnSelection_def Let_def)
  next
    case False
    with assms show ?thesis by (simp add: applyFormattingOnSelection_whole)
  qed
qed

text \<open>
  C10. The routine is total over integer offsets. With the offsets inverted
  (\<open>selectionStart > selectionEnd\<close>) the formatter is applied to the whole value. With
  \<open>selectionEnd > selectionStart\<close>, whatever the offsets (negative, or beyond the length),
  the result is prefix, formatted middle and suffix, cut at the offsets clamped into
  \<open>[0, length]\<close>. A formatter that never throws makes the routine return.
\<close>

theorem formatting_total:
  "(let selStart = (case selectionStart element of None \<Rightarrow> 0 | Some n \<Rightarrow> n);
        selEnd = (case selectionEnd element of None \<Rightarrow> 0 | Some n \<Rightarrow> n);
        v = (case elem_value element of None \<Rightarrow> '''' | Some s \<Rightarrow> s)
    in (selStart > selEnd \<longrightarrow> applyFormattingOnSelection element formatter = formatter v) \<and>
       (selEnd > selStart \<longrightarrow>
          applyFormattingOnSelection element formatter =
            (case formatter (drop (clamp v selStart) (take (clamp v selEnd) v)) of
               Inl x \<Rightarrow> Inl x
             | Inr middle \<Rightarrow> Inr (take (clamp v selStart) v @ middle @ drop (clamp v selEnd) v)))) \<and>
   ((\<forall>t. \<not> isl (formatter t)) \<longrightarrow> \<not> isl (applyFormattingOnSelection element formatter))"
proof -
  have n: "nullish a b = (case a of None \<Rightarrow> b | Some v \<Rightarrow> v)" for a :: "'a option" and b
    by (simp add: nullish_def)
  show ?thesis
    using applyFormattingOnSelection_selected [of element formatter]
      applyFormattingOnSelection_whole [of element formatter]
      applyFormattingOnSelection_returns [of formatter element]
    by (simp add: n Let_def)
qed

theorem formatting_total_witness:
  "(8::int) > 3 \<and>
   applyFormattingOnSelection (example_element\<lparr>selectionStart := Some 8, selectionEnd := Some 3\<rparr>) toUpperCase
     = Inr ''HELLO WORLD'' \<and>
   (99::int) > 6 \<and>
   applyFormattingOnSelection (example_element\<lparr>selectionStart := Some 6, selectionEnd := Some 99\<rparr>) toUpperCase
     = Inr ''hello WORLD'' \<and>
   applyFormattingOnSelection (example_element\<lparr>selectionStart := Some 20, selectionEnd := Some 30\<rparr>) toUpperCase
     = Inr ''hello world'' \<and>
   \<not> isl (applyFormattingOnSelection (example_element\<lparr>selectionStart := Some (-4), selectionEnd := Some 2\<rparr>) toUpperCase)"
  using formatting_total [of "example_element\<lparr>selectionStart := Some 8, selectionEnd := Some 3\<rparr>" toUpperCase]
    formatting_total [of "example_element\<lparr>selectionStart := Some 6, selectionEnd := Some 99\<rparr>" toUpperCase]
    formatting_total [of "example_element\<lparr>selectionStart := Some 20, selectionEnd := Some 30\<rparr>" toUpperCase]
    formatting_total [of "example_element\<lparr>selectionStart := Some (-4), selectionEnd := Some 2\<rparr>" toUpperCase]
  by (simp add: example_element_def clamp_def Let_def char_simps)

section \<open>applyFormat\<close>

text \<open>
  C4. When \<open>activeElement\<close> is absent, \<open>applyFormat\<close> returns normally and all it does
  is warn: the world after the call is the world before it with the warning appended to
  the trace. No value is written, no event is dispatched, no handler and no subscriber is
  called, and the manager is as it was. A fresh coordinator is such a state.
\<close>

theorem applyFormat_without_active_element:
  "(activeElement (getState w) = None \<longrightarrow>
      applyFormat formatter onChange w =
        (Inr (), w\<lparr>trace := trace w @ [ConsoleWarn ''No active element found for formatting'']\<rparr>)) \<and>
   applyFormat formatter onChange (initial_world rt els) =
     (Inr (), (initial_world rt els)\<lparr>trace := [ConsoleWarn ''No active element found for formatting'']\<rparr>)"
  by (simp add: applyFormat_def getState_def initial_world_def initial_manager_def)

theorem applyFormat_without_active_element_witness:
  "activeElement (getState (hideToolbar (snd (showToolbar 1 None (initial_world NodeJS example_elements))))) = None \<and>
   fst (applyFormat toUpperCase (Some 9) (hideToolbar (snd (showToolbar 1 None (initial_world NodeJS example_elements))))) = Inr () \<and>
   elements (snd (applyFormat toUpperCase (Some 9) (hideToolbar (snd (showToolbar 1 None (initial_world NodeJS example_elements))))))
     = example_elements \<and>
   trace (snd (applyFormat toUpperCase (Some 9) (hideToolbar (snd (showToolbar 1 None (initial_world NodeJS example_elements))))))
     = [ConsoleWarn ''No active element found for formatting'']"
  using applyFormat_without_active_element
    [of "hideToolbar (snd (showToolbar 1 None (initial_world NodeJS example_elements)))" toUpperCase "Some 9"]
  by (simp add: initial_world_def initial_manager_def showToolbar_eq hideToolbar_eq Let_def
      getState_def hidden_state_def example_defs defaultGetPosition_def)

subsection \<open>What the closing focus does\<close>

lemma fireBlur_frame:
  "getState (fireBlur w) = getState w"
  "activeElementOnChange (manager (fireBlur w)) = activeElementOnChange (manager w)"
  "subscribers (manager (fireBlur w)) = subscribers (manager w)"
  "elements (fireBlur w) = elements w"
  "trace (fireBlur w) = trace w"
  "bindings (fireBlur w) = bindings w"
  "focused (fireBlur w) = focused w"
  "runtime (fireBlur w) = runtime w"
  by (simp_all add: fireBlur_def handleBlur_eq scheduleHide_eq getState_def split: option.splits)

lemma published_fireBlur: "published (fireBlur w) = published w"
  by (simp add: published_def fireBlur_frame)





lemma formatted_world_frame:
  "manager (formatted_world el newValue onChange w) = manager w"
  "published (formatted_world el newValue onChange w) = published w"
  "focused (formatted_world el newValue onChange w) = focused w"
  "bindings (formatted_world el newValue onChange w) = bindings w"
  "timers (formatted_world el newValue onChange w) = timers w"
  "runtime (formatted_world el newValue onChange w) = runtime w"
  "elements (formatted_world el newValue onChange w) el = (elements w el)\<lparr>elem_value := Some newValue\<rparr>"
  by (simp_all add: formatted_world_def published_def map_filter_append split: option.splits)

lemma applyFormat_formats:
  assumes "activeElement (getState w) = Some el"
    and "applyFormattingOnSelection (elements w el) formatter = Inr newValue"
  shows "applyFormat formatter onChange w = (Inr (), focusElement el (formatted_world el newValue onChange w))"
  using assms by (simp add: applyFormat_eq getState_def formatted_world_def)











section \<open>hideToolbar, twice\<close>

text \<open>
  C7. \<open>hideToolbar\<close> yields the hidden state, a second call in a row yields the same
  manager (and the same timers and elements) as the first, and the second call still
  hands the hidden state to every subscriber: nothing is suppressed.
\<close>

theorem hide_idempotent:
  "getState (hideToolbar w) = hidden_state \<and>
   getState (hideToolbar (hideToolbar w)) = getState (hideToolbar w) \<and>
   manager (hideToolbar (hideToolbar w)) = manager (hideToolbar w) \<and>
   timers (hideToolbar (hideToolbar w)) = timers (hideToolbar w) \<and>
   elements (hideToolbar (hideToolbar w)) = elements (hideToolbar w) \<and>
   subscribers (manager (hideToolbar w)) = subscribers (manager w) \<and>
   trace (hideToolbar (hideToolbar w)) =
     trace (hideToolbar w) @ map (\<lambda>callback. Published callback hidden_state) (subscribers (manager w))"
  by (simp add: hideToolbar_eq getState_def)

theorem hide_idempotent_witness:
  "published (hideToolbar (hideToolbar (snd (subscribe 8 (snd (subscribe 7 (initial_world NodeJS example_elements)))))))
     = [(7, \<lparr>activeElement = None, isVisible = False, position = None\<rparr>),
        (8, \<lparr>activeElement = None, isVisible = False, position = None\<rparr>),
        (7, \<lparr>activeElement = None, isVisible = False, position = None\<rparr>),
        (8, \<lparr>activeElement = None, isVisible = False, position = None\<rparr>)] \<and>
   getState (hideToolbar (hideToolbar (snd (subscribe 8 (snd (subscribe 7 (initial_world NodeJS example_elements)))))))
     = \<lparr>activeElement = None, isVisible = False, position = None\<rparr>"
  using hide_idempotent [of "snd (subscribe 8 (snd (subscribe 7 (initial_world NodeJS example_elements))))"]
  by (simp add: eval_simps example_defs map_filter_append)

section \<open>Change notification\<close>








section \<open>subscribe\<close>

text \<open>
  C3 as stated fails. Callback \<open>7\<close> is subscribed twice and the closure returned by the
  first call is invoked once: \<open>7\<close> is no longer registered, and the next transition
  (a \<open>hideToolbar\<close>) hands its snapshot to nobody.
\<close>

theorem subscribe_twice_counterexample:
  "7 \<notin> set (subscribers (manager
      (call_unsubscribe (fst (subscribe 7 (initial_world NodeJS example_elements)))
        (snd (subscribe 7 (snd (subscribe 7 (initial_world NodeJS example_elements)))))))) \<and>
   published (hideToolbar
      (call_unsubscribe (fst (subscribe 7 (initial_world NodeJS example_elements)))
        (snd (subscribe 7 (snd (subscribe 7 (initial_world NodeJS example_elements))))))) = []"
  by (simp add: eval_simps example_defs)

lemma published_setState:
  "published (setState p w) = published w @ map (\<lambda>callback. (callback, spread (state (manager w)) p)) (subscribers (manager w))"
  by (simp add: setState_eq published_def map_filter_append map_filter_published)

text \<open>
  C3, amended. The registry is a set keyed by the callback. Subscribing a callback that
  is registered changes nothing and returns an equal closure; after a call of that
  closure the callback is not registered, whatever happened in between; a different
  callback is registered after that call exactly if it was before; and a transition
  hands its snapshot to the registered callbacks and to no other.
\<close>

theorem subscribe_by_identity:
  "snd (subscribe c (snd (subscribe c w))) = snd (subscribe c w) \<and>
   fst (subscribe c (snd (subscribe c w))) = fst (subscribe c w) \<and>
   c \<in> set (subscribers (manager (snd (subscribe c w)))) \<and>
   c \<notin> set (subscribers (manager (call_unsubscribe (fst (subscribe c w)) w'))) \<and>
   (c' \<noteq> c \<longrightarrow>
      (c' \<in> set (subscribers (manager (call_unsubscribe (fst (subscribe c w)) w')))) =
      (c' \<in> set (subscribers (manager w')))) \<and>
   published (setState p w') =
     published w' @ map (\<lambda>callback. (callback, spread (getState w') p)) (subscribers (manager w'))"
  by (simp add: subscribe_def set_add_def set_delete_def published_setState getState_def)

theorem subscribe_by_identity_witness:
  "(8::nat) \<noteq> 7 \<and>
   subscribers (manager (snd (subscribe 7 (snd (subscribe 7 (snd (subscribe 8 (initial_world NodeJS example_elements)))))))) = [8, 7] \<and>
   subscribers (manager (call_unsubscribe (fst (subscribe 7 (snd (subscribe 8 (initial_world NodeJS example_elements)))))
      (snd (subscribe 7 (snd (subscribe 7 (snd (subscribe 8 (initial_world NodeJS example_elements))))))))) = [8] \<and>
   published (hideToolbar (call_unsubscribe (fst (subscribe 7 (snd (subscribe 8 (initial_world NodeJS example_elements)))))
      (snd (subscribe 7 (snd (subscribe 7 (snd (subscribe 8 (initial_world NodeJS example_elements)))))))))
     = [(8, \<lparr>activeElement = None, isVisible = False, position = None\<rparr>)]"
  using subscribe_by_identity [of 7 "snd (subscribe 8 (initial_world NodeJS example_elements))"
      "snd (subscribe 7 (snd (subscribe 7 (snd (subscribe 8 (initial_world NodeJS example_elements))))))" 8]
  by (simp add: eval_simps example_defs map_filter_append)

section \<open>The deferred hide\<close>

lemma slot_ok_cases:
  "slot_ok ts handle = (ts = [] \<or> (\<exists>h d. ts = [(h, d)] \<and> handle = Some h))"
  by (cases "(ts, handle)" rule: slot_ok.cases) auto

lemma single_slot_cases:
  "single_slot w = (timers w = [] \<or> (\<exists>h d. timers w = [(h, d)] \<and> hideTimeout (manager w) = Some h))"
  by (simp add: single_slot_def slot_ok_cases)

lemma single_slot_cleared:
  "single_slot w \<Longrightarrow>
     (case hideTimeout (manager w) of None \<Rightarrow> timers w | Some h \<Rightarrow> filter (\<lambda>t. fst t \<noteq> h) (timers w)) = []"
  by (auto simp: single_slot_cases split: option.splits)

lemma timers_hideToolbar: "single_slot w \<Longrightarrow> timers (hideToolbar w) = []"
  by (simp add: hideToolbar_eq single_slot_cleared)

lemma timers_cancelScheduledHide: "single_slot w \<Longrightarrow> timers (cancelScheduledHide w) = []"
  by (simp add: cancelScheduledHide_def clearHideTimeout_eq single_slot_cleared)

lemma timers_showToolbar: "single_slot w \<Longrightarrow> timers (snd (showToolbar element getPosition w)) = []"
  by (simp add: showToolbar_eq Let_def single_slot_cleared split: sum.splits)

lemma timers_scheduleHide:
  "single_slot w \<Longrightarrow>
     timers (scheduleHide delay w) = [(nextTimeout w, clock w + timer_delay (runtime w) delay)]"
  by (simp add: scheduleHide_eq single_slot_cleared)

lemma single_slot_empty: "timers w = [] \<Longrightarrow> single_slot w"
  by (simp add: single_slot_def)

lemma single_slot_scheduleHide: "single_slot w \<Longrightarrow> single_slot (scheduleHide delay w)"
  using timers_scheduleHide [of w delay]
  by (simp add: single_slot_def) (simp add: scheduleHide_eq)

lemma timerFires_nothing:
  "find (\<lambda>t. fst t = h \<and> snd t \<le> clock w) (timers w) = None \<Longrightarrow> timerFires h w = w"
  by (simp add: timerFires_def)

lemma timerFires_due:
  assumes "timers w = [(h, d)]" and "hideTimeout (manager w) = Some h" and "d \<le> clock w"
  shows "timerFires h w =
     w\<lparr>manager := (manager w)\<lparr>hideTimeout := None, activeElementOnChange := None, state := hidden_state\<rparr>,
       timers := [],
       trace := trace w @ [TimerFired h (clock w)]
                @ map (\<lambda>callback. Published callback hidden_state) (subscribers (manager w))\<rparr>"
  using assms by (simp add: timerFires_def Let_def clearTimeout_def hideToolbar_eq)

lemma single_slot_timerFires: "single_slot w \<Longrightarrow> single_slot (timerFires h w)"
proof (cases "find (\<lambda>t. fst t = h \<and> snd t \<le> clock w) (timers w)")
  case None
  assume "single_slot w"
  with None show ?thesis by (simp add: timerFires_nothing)
next
  case (Some t)
  assume s: "single_slot w"
  from Some have "t \<in> set (timers w)" and "fst t = h" and "snd t \<le> clock w"
    by (auto simp: find_Some_iff in_set_conv_nth)
  with s have "timers w = [(h, snd t)]" and "hideTimeout (manager w) = Some h"
    by (auto simp: single_slot_cases)
  from timerFires_due [OF this \<open>snd t \<le> clock w\<close>] show ?thesis
    by (simp add: single_slot_def)
qed

lemma single_slot_clock [simp]: "single_slot (w\<lparr>clock := c\<rparr>) = single_slot w"
  by (simp add: single_slot_def)

lemma single_slot_advanceTo: "single_slot w \<Longrightarrow> single_slot (advanceTo deadline w)"
proof (induction deadline w rule: advanceTo.induct)
  case (1 deadline w)
  show ?case
  proof (cases "earliest (timers w)")
    case None
    with "1.prems" show ?thesis by (simp add: advanceTo.simps [of deadline w])
  next
    case (Some t)
    show ?thesis
    proof (cases "snd t \<le> deadline")
      case True
      have "single_slot (timerFires (fst t) (w\<lparr>clock := max (clock w) (snd t)\<rparr>))"
        using "1.prems" by (simp add: single_slot_timerFires)
      then have "single_slot (advanceTo deadline (timerFires (fst t) (w\<lparr>clock := max (clock w) (snd t)\<rparr>)))"
        using "1.IH" Some True by blast
      with Some True show ?thesis by (simp add: advanceTo.simps [of deadline w])
    next
      case False
      with Some "1.prems" show ?thesis by (simp add: advanceTo.simps [of deadline w])
    qed
  qed
qed

lemma single_slot_untouched:
  "timers w' = timers w \<Longrightarrow> manager w' = manager w \<Longrightarrow> single_slot w' = single_slot w"
  by (simp add: single_slot_def)

lemma single_slot_moveFocus: "single_slot w \<Longrightarrow> single_slot (moveFocus dest w)"
proof -
  assume s: "single_slot w"
  have blurred: "single_slot (fireBlur w)"
    using s by (simp add: fireBlur_def handleBlur_eq single_slot_scheduleHide split: option.splits)
  have "single_slot ((fireBlur w)\<lparr>focused := d\<rparr>) = single_slot (fireBlur w)" for d
    by (rule single_slot_untouched) simp_all
  with blurred have moved: "single_slot ((fireBlur w)\<lparr>focused := d\<rparr>)" for d by simp
  have focus: "single_slot v \<Longrightarrow> single_slot (fireFocus el v)" for el v
    by (simp add: fireFocus_def handleFocus_eq single_slot_empty timers_showToolbar split: option.splits)
  show ?thesis
  proof (cases dest)
    case None
    with s moved [of None] show ?thesis by (simp add: moveFocus_def Let_def)
  next
    case (Some el)
    with s focus [OF moved [of "Some el"], of el] show ?thesis by (simp add: moveFocus_def Let_def)
  qed
qed

lemma single_slot_applyFormat:
  assumes s: "single_slot w"
  shows "single_slot (snd (applyFormat formatter onChange w))"
proof (cases "activeElement (getState w)")
  case None
  have "single_slot (w\<lparr>trace := trace w @ [ConsoleWarn ''No active element found for formatting'']\<rparr>)
        = single_slot w"
    by (rule single_slot_untouched) simp_all
  with s None show ?thesis by (simp add: applyFormat_eq getState_def)
next
  case (Some el)
  show ?thesis
  proof (cases "applyFormattingOnSelection (elements w el) formatter")
    case (Inl e)
    with s Some show ?thesis by (simp add: applyFormat_eq getState_def)
  next
    case (Inr newValue)
    let ?w1 = "formatted_world el newValue onChange w"
    let ?w2 = "?w1\<lparr>trace := trace ?w1 @ [Focused el]\<rparr>"
    have "single_slot ?w2 = single_slot w"
      by (rule single_slot_untouched) (simp_all add: formatted_world_frame)
    with s have "single_slot (moveFocus (Some el) ?w2)" by (simp add: single_slot_moveFocus)
    with applyFormat_formats [OF Some Inr, of onChange] show ?thesis
      by (simp add: focusElement_def)
  qed
qed

lemma single_slot_step: "single_slot w \<Longrightarrow> single_slot (step a w)"
proof (cases a)
  case (HookBound element config)
  assume "single_slot w"
  with HookBound show ?thesis by (simp add: single_slot_def)
next
  case (Subscribe callback)
  assume "single_slot w"
  with Subscribe show ?thesis by (simp add: single_slot_def subscribe_def)
next
  case (CallUnsubscribe u)
  assume "single_slot w"
  with CallUnsubscribe show ?thesis by (cases u) (simp add: single_slot_def)
next
  case (ElementEdited element e)
  assume "single_slot w"
  with ElementEdited show ?thesis by (simp add: single_slot_def)
qed (simp_all add: single_slot_empty timers_hideToolbar timers_cancelScheduledHide timers_showToolbar
     single_slot_scheduleHide single_slot_timerFires single_slot_advanceTo advanceTime_def elapse_def
     single_slot_moveFocus single_slot_applyFormat)

lemma single_slot_run: "single_slot w \<Longrightarrow> single_slot (run ops w)"
  by (induction ops arbitrary: w) (simp_all add: single_slot_step)

lemma single_slot_initial: "single_slot (initial_world rt els)"
  by (simp add: single_slot_def initial_world_def)

lemma single_slot_reachable: "single_slot (run ops (initial_world rt els))"
  by (rule single_slot_run [OF single_slot_initial])

lemma single_slot_length: "single_slot w \<Longrightarrow> length (timers w) \<le> 1"
  by (auto simp: single_slot_cases)

lemma advanceTo_no_timers: "timers w = [] \<Longrightarrow> advanceTo deadline w = w\<lparr>clock := max (clock w) deadline\<rparr>"
  by (simp add: advanceTo.simps [of deadline w])

lemma advanceTo_not_due:
  "timers w = [(h, d)] \<Longrightarrow> deadline < d \<Longrightarrow> advanceTo deadline w = w\<lparr>clock := max (clock w) deadline\<rparr>"
  by (simp add: advanceTo.simps [of deadline w])

lemma advanceTo_due:
  assumes "timers w = [(h, d)]" and "hideTimeout (manager w) = Some h" and "d \<le> deadline"
  shows "advanceTo deadline w =
     w\<lparr>manager := (manager w)\<lparr>hideTimeout := None, activeElementOnChange := None, state := hidden_state\<rparr>,
       timers := [],
       clock := max (max (clock w) d) deadline,
       trace := trace w @ [TimerFired h (max (clock w) d)]
                @ map (\<lambda>callback. Published callback hidden_state) (subscribers (manager w))\<rparr>"
proof -
  let ?w = "w\<lparr>clock := max (clock w) d\<rparr>"
  have fired: "timerFires h ?w =
     ?w\<lparr>manager := (manager ?w)\<lparr>hideTimeout := None, activeElementOnChange := None, state := hidden_state\<rparr>,
       timers := [],
       trace := trace ?w @ [TimerFired h (clock ?w)]
                @ map (\<lambda>callback. Published callback hidden_state) (subscribers (manager ?w))\<rparr>"
  proof (rule timerFires_due)
    show "timers ?w = [(h, d)]" by (simp add: assms(1))
    show "hideTimeout (manager ?w) = Some h" by (simp add: assms(2))
    show "d \<le> clock ?w" by simp
  qed
  have "advanceTo deadline w = advanceTo deadline (timerFires h ?w)"
    using assms by (simp add: advanceTo.simps [of deadline w])
  also have "\<dots> = (timerFires h ?w)\<lparr>clock := max (clock (timerFires h ?w)) deadline\<rparr>"
    by (rule advanceTo_no_timers) (simp add: fired)
  finally show ?thesis by (simp add: fired)
qed

lemma runtime_advanceTo: "runtime (advanceTo deadline w) = runtime w"
proof (induction deadline w rule: advanceTo.induct)
  case (1 deadline w)
  have fires: "runtime (timerFires h v) = runtime v" for h v
    by (simp add: timerFires_def Let_def clearTimeout_def hideToolbar_eq split: option.splits)
  show ?case
  proof (cases "earliest (timers w)")
    case None
    then show ?thesis by (simp add: advanceTo.simps [of deadline w])
  next
    case (Some t)
    show ?thesis
    proof (cases "snd t \<le> deadline")
      case True
      with Some "1.IH" [OF Some True] fires show ?thesis
        by (simp add: advanceTo.simps [of deadline w])
    next
      case False
      with Some show ?thesis by (simp add: advanceTo.simps [of deadline w])
    qed
  qed
qed

lemma runtime_moveFocus: "runtime (moveFocus dest w) = runtime w"
  by (simp add: moveFocus_def Let_def fireBlur_frame fireFocus_def handleFocus_eq showToolbar_eq
      split: option.splits sum.splits)

lemma runtime_step: "runtime (step a w) = runtime w"
proof (cases a)
  case (ApplyFormat formatter onChange)
  then show ?thesis
    by (simp add: applyFormat_eq focusElement_def runtime_moveFocus split: option.splits sum.splits)
next
  case (CallUnsubscribe u)
  then show ?thesis by (cases u) simp
next
  case (TimerFires h)
  then show ?thesis
    by (simp add: timerFires_def Let_def clearTimeout_def hideToolbar_eq split: option.splits)
qed (simp_all add: showToolbar_eq hideToolbar_eq scheduleHide_eq cancelScheduledHide_def
     clearHideTimeout_eq subscribe_def elapse_def advanceTime_def runtime_advanceTo runtime_moveFocus
     Let_def split: sum.splits)

lemma runtime_run: "runtime (run ops w) = runtime w"
  by (induction ops arbitrary: w) (simp_all add: runtime_step)

lemma runtime_reachable: "runtime (run ops (initial_world rt els)) = rt"
  by (simp add: runtime_run initial_world_def)

lemma timer_delay_honoured: "t < d \<Longrightarrow> d \<le> 2147483647 \<Longrightarrow> timer_delay rt d = d"
  by (cases rt) (simp_all add: timer_delay_def)

lemma quiet_step:
  assumes "timers w = []" and "time_passes a"
  shows "\<exists>c. step a w = w\<lparr>clock := c\<rparr>"
proof (cases a)
  case (TimerFires h)
  have "w = w\<lparr>clock := clock w\<rparr>" by simp
  with TimerFires assms show ?thesis by (metis step.simps(8) timerFires_nothing find.simps(1))
next
  case (Elapse ms)
  then show ?thesis by (auto simp: elapse_def)
next
  case (AdvanceTime ms)
  with assms show ?thesis by (auto simp: advanceTime_def advanceTo_no_timers)
qed (use assms in simp_all)

lemma quiet_run:
  assumes "timers w = []" and "list_all time_passes evs"
  shows "\<exists>c. run evs w = w\<lparr>clock := c\<rparr>"
  using assms
proof (induction evs arbitrary: w)
  case Nil
  have "w = w\<lparr>clock := clock w\<rparr>" by simp
  then show ?case by (metis run.simps(1))
next
  case (Cons a evs)
  then obtain c where c: "step a w = w\<lparr>clock := c\<rparr>"
    using quiet_step [of w a] by auto
  have "timers (w\<lparr>clock := c\<rparr>) = []" using Cons.prems by simp
  then obtain c' where "run evs (w\<lparr>clock := c\<rparr>) = w\<lparr>clock := c, clock := c'\<rparr>"
    using Cons.IH [of "w\<lparr>clock := c\<rparr>"] Cons.prems by auto
  with c show ?case by auto
qed

lemma one_pending_step:
  assumes "time_passes a" and t: "timers w = [(h, dl)]" and m: "hideTimeout (manager w) = Some h"
  shows "(timers (step a w) = [(h, dl)] \<and> hideTimeout (manager (step a w)) = Some h \<and>
          hides_fired (step a w) = hides_fired w) \<or>
         (timers (step a w) = [] \<and> (\<exists>at\<ge>dl. hides_fired (step a w) = hides_fired w @ [(h, at)]))"
proof (cases a)
  case (TimerFires h')
  show ?thesis
  proof (cases "h' = h \<and> dl \<le> clock w")
    case True
    then have "dl \<le> clock w" by simp
    from timerFires_due [OF t m this] True TimerFires show ?thesis
      by (auto simp: hides_fired_def map_filter_append map_filter_fired_published)
  next
    case False
    then have "find (\<lambda>u. fst u = h' \<and> snd u \<le> clock w) (timers w) = None"
      by (auto simp: t)
    from timerFires_nothing [OF this] TimerFires t m show ?thesis by simp
  qed
next
  case (Elapse ms)
  with t m show ?thesis by (simp add: elapse_def hides_fired_def)
next
  case (AdvanceTime ms)
  show ?thesis
  proof (cases "dl \<le> clock w + ms")
    case True
    from advanceTo_due [OF t m True] AdvanceTime show ?thesis
      by (auto simp: advanceTime_def hides_fired_def map_filter_append map_filter_fired_published)
  next
    case False
    then have "clock w + ms < dl" by simp
    from advanceTo_not_due [OF t this] AdvanceTime t m show ?thesis
      by (simp add: advanceTime_def hides_fired_def)
  qed
qed (use assms in simp_all)

lemma one_pending_run:
  assumes "list_all time_passes evs" and "timers w = [(h, dl)]" and "hideTimeout (manager w) = Some h"
  shows "hides_fired (run evs w) = hides_fired w \<or>
         (\<exists>at\<ge>dl. hides_fired (run evs w) = hides_fired w @ [(h, at)])"
  using assms
proof (induction evs arbitrary: w)
  case Nil
  show ?case by simp
next
  case (Cons a evs)
  from Cons.prems have a: "time_passes a" and evs: "list_all time_passes evs" by simp_all
  from one_pending_step [OF a Cons.prems(2,3)]
  show ?case
  proof
    assume "timers (step a w) = [(h, dl)] \<and> hideTimeout (manager (step a w)) = Some h \<and>
          hides_fired (step a w) = hides_fired w"
    with Cons.IH [OF evs, of "step a w"] show ?thesis by simp
  next
    assume fired: "timers (step a w) = [] \<and> (\<exists>at\<ge>dl. hides_fired (step a w) = hides_fired w @ [(h, at)])"
    then obtain c where "run evs (step a w) = (step a w)\<lparr>clock := c\<rparr>"
      using quiet_run [OF _ evs, of "step a w"] by blast
    then have "hides_fired (run (a # evs) w) = hides_fired (step a w)"
      by (simp add: hides_fired_def)
    with fired show ?thesis by auto
  qed
qed

lemma scheduleHide_twice:
  assumes "single_slot w"
  shows "scheduleHide d2 (scheduleHide d1 w) =
     w\<lparr>manager := (manager w)\<lparr>hideTimeout := Some (Suc (nextTimeout w))\<rparr>,
       timers := [(Suc (nextTimeout w), clock w + timer_delay (runtime w) d2)],
       nextTimeout := Suc (Suc (nextTimeout w))\<rparr>"
  using single_slot_cleared [OF assms] by (simp add: scheduleHide_eq)

lemma advanceTime_pending:
  assumes "timers w = [(h, clock w + d)]" and "hideTimeout (manager w) = Some h"
  shows "advanceTime ms w =
     (if d \<le> ms
      then w\<lparr>manager := (manager w)\<lparr>hideTimeout := None, activeElementOnChange := None, state := hidden_state\<rparr>,
             timers := [],
             clock := clock w + ms,
             trace := trace w @ [TimerFired h (clock w + d)]
                      @ map (\<lambda>callback. Published callback hidden_state) (subscribers (manager w))\<rparr>
      else w\<lparr>clock := clock w + ms\<rparr>)"
proof (cases "d \<le> ms")
  case True
  then have "clock w + d \<le> clock w + ms" by simp
  from advanceTo_due [OF assms this] True show ?thesis
    by (simp add: advanceTime_def max_def)
next
  case False
  then have "clock w + ms < clock w + d" by simp
  from advanceTo_not_due [OF assms(1) this] False show ?thesis
    by (simp add: advanceTime_def)
qed

lemma supersession:
  fixes w :: world and d2 :: nat
  assumes "single_slot w"
  defines "e2 \<equiv> timer_delay (runtime w) d2"
  shows "timers (scheduleHide d2 (scheduleHide d1 w)) = [(Suc (nextTimeout w), clock w + e2)]"
    and "hides_fired (advanceTime ms (scheduleHide d2 (scheduleHide d1 w)))
           = hides_fired w @ (if e2 \<le> ms then [(Suc (nextTimeout w), clock w + e2)] else [])"
    and "getState (advanceTime ms (scheduleHide d2 (scheduleHide d1 w)))
           = (if e2 \<le> ms then hidden_state else getState w)"
    and "timers (advanceTime ms (scheduleHide d2 (scheduleHide d1 w)))
           = (if e2 \<le> ms then [] else [(Suc (nextTimeout w), clock w + e2)])"
    and "list_all time_passes evs \<Longrightarrow>
           hides_fired (run evs (scheduleHide d2 (scheduleHide d1 w))) = hides_fired w \<or>
           (\<exists>at\<ge>clock w + e2.
              hides_fired (run evs (scheduleHide d2 (scheduleHide d1 w)))
                = hides_fired w @ [(Suc (nextTimeout w), at)])"
proof -
  let ?w2 = "scheduleHide d2 (scheduleHide d1 w)"
  have t: "timers ?w2 = [(Suc (nextTimeout w), clock ?w2 + e2)]"
    and h: "hideTimeout (manager ?w2) = Some (Suc (nextTimeout w))"
    by (simp_all add: scheduleHide_twice [OF assms(1)] e2_def)
  note adv = advanceTime_pending [OF t h, of ms]
  show "timers ?w2 = [(Suc (nextTimeout w), clock w + e2)]"
    by (simp add: scheduleHide_twice [OF assms(1)] e2_def)
  show "hides_fired (advanceTime ms ?w2)
           = hides_fired w @ (if e2 \<le> ms then [(Suc (nextTimeout w), clock w + e2)] else [])"
    unfolding adv
    by (simp add: scheduleHide_twice [OF assms(1)] hides_fired_def map_filter_append map_filter_fired_published)
  show "getState (advanceTime ms ?w2) = (if e2 \<le> ms then hidden_state else getState w)"
    unfolding adv by (simp add: scheduleHide_twice [OF assms(1)] getState_def)
  show "timers (advanceTime ms ?w2) = (if e2 \<le> ms then [] else [(Suc (nextTimeout w), clock w + e2)])"
    unfolding adv by (simp add: scheduleHide_twice [OF assms(1)] e2_def)
  assume "list_all time_passes evs"
  from one_pending_run [OF this t h]
  show "hides_fired (run evs ?w2) = hides_fired w \<or>
        (\<exists>at\<ge>clock w + e2. hides_fired (run evs ?w2) = hides_fired w @ [(Suc (nextTimeout w), at)])"
    by (simp add: scheduleHide_twice [OF assms(1)] hides_fired_def)
qed

lemma focus_race:
  assumes s: "single_slot w" and "t < timer_delay (runtime w) d"
    and a: "fst (showToolbar a getPositionA w) = Inr ()"
    and b: "fst (showToolbar b getPositionB (advanceTime t (scheduleHide d (snd (showToolbar a getPositionA w))))) = Inr ()"
  defines "w4 \<equiv> snd (showToolbar b getPositionB (advanceTime t (scheduleHide d (snd (showToolbar a getPositionA w)))))"
  shows "activeElement (getState w4) = Some b" and "isVisible (getState w4)" and "timers w4 = []"
    and "hides_fired w4 = hides_fired w"
    and "list_all time_passes evs \<Longrightarrow>
           hides_fired (run evs w4) = hides_fired w \<and> getState (run evs w4) = getState w4"
proof -
  let ?w1 = "snd (showToolbar a getPositionA w)"
  let ?w2 = "scheduleHide d ?w1"
  let ?w3 = "advanceTime t ?w2"
  let ?e = "timer_delay (runtime w) d"
  have s1: "single_slot ?w1" using s by (simp add: single_slot_empty timers_showToolbar)
  have t1: "timers ?w1 = []" using s by (rule timers_showToolbar)
  have r1: "runtime ?w1 = runtime w"
    by (simp add: showToolbar_eq Let_def split: sum.splits)
  have f1: "hides_fired ?w1 = hides_fired w"
    by (simp add: showToolbar_eq Let_def hides_fired_def map_filter_append map_filter_fired_published
        split: sum.splits)
  have t2: "timers ?w2 = [(nextTimeout ?w1, clock ?w2 + ?e)]"
    and h2: "hideTimeout (manager ?w2) = Some (nextTimeout ?w1)"
    by (simp_all add: scheduleHide_eq t1 r1 split: option.splits)
  have w3: "?w3 = ?w2\<lparr>clock := clock ?w2 + t\<rparr>"
    using advanceTime_pending [OF t2 h2, of t] \<open>t < ?e\<close> by simp
  have s3: "single_slot ?w3"
    unfolding w3 using single_slot_scheduleHide [OF s1, of d] by simp
  have f3: "hides_fired ?w3 = hides_fired w"
    unfolding w3 using f1 by (simp add: scheduleHide_eq hides_fired_def)
  show t4: "timers w4 = []" unfolding w4_def using s3 by (rule timers_showToolbar)
  show "activeElement (getState w4) = Some b" and "isVisible (getState w4)"
    using b unfolding w4_def by (simp_all add: showToolbar_eq Let_def getState_def split: sum.splits)
  show f4: "hides_fired w4 = hides_fired w"
    unfolding w4_def using f3
    by (simp add: showToolbar_eq Let_def hides_fired_def map_filter_append map_filter_fired_published
        split: sum.splits)
  assume "list_all time_passes evs"
  from quiet_run [OF t4 this] obtain c where "run evs w4 = w4\<lparr>clock := c\<rparr>" by blast
  with f4 show "hides_fired (run evs w4) = hides_fired w \<and> getState (run evs w4) = getState w4"
    by (simp add: hides_fired_def getState_def)
qed

text \<open>
  C5. In every world of a run from the initial one, in either runtime, at most one
  deferred hide is pending, and \<open>showToolbar\<close> leaves none. \<open>scheduleHide d1\<close> followed at
  once by \<open>scheduleHide d2\<close> leaves the second timer alone: as \<open>ms\<close> milliseconds pass, the
  hide fires once, at the delay the timer waits for \<open>d2\<close> after the calls, if that much
  time passes, and not at all otherwise; and with a runtime that may be late, along any
  sequence of timers firing and time passing the hide fires at most once, not before that
  deadline. The timer waits the delay it is given when that is from \<open>1\<close> to \<open>2^31 - 1\<close>, so
  for the spec's \<open>100\<close> then \<open>50\<close> the hide fires once, \<open>50\<close> after the calls. After
  \<open>showToolbar a\<close>, \<open>scheduleHide d\<close>, less than the timer's delay passing (less than
  \<open>500\<close> for the spec's \<open>500\<close>) and \<open>showToolbar b\<close>, the active element is \<open>b\<close>, nothing
  is pending, and no hide has fired or fires along any such sequence.
\<close>

theorem single_pending_hide:
  "(let w = run ops (initial_world rt els);
        w2 = scheduleHide d2 (scheduleHide d1 w);
        e2 = timer_delay rt d2
    in length (timers w) \<le> 1 \<and>
       timers (snd (showToolbar element getPosition w)) = [] \<and>
       timers (scheduleHide d1 w) = [(nextTimeout w, clock w + timer_delay rt d1)] \<and>
       timers w2 = [(Suc (nextTimeout w), clock w + e2)] \<and>
       hides_fired (advanceTime ms w2)
         = hides_fired w @ (if e2 \<le> ms then [(Suc (nextTimeout w), clock w + e2)] else []) \<and>
       getState (advanceTime ms w2) = (if e2 \<le> ms then hidden_state else getState w) \<and>
       timers (advanceTime ms w2) = (if e2 \<le> ms then [] else timers w2) \<and>
       (list_all time_passes evs \<longrightarrow>
          hides_fired (run evs w2) = hides_fired w \<or>
          (\<exists>at\<ge>clock w + e2. hides_fired (run evs w2) = hides_fired w @ [(Suc (nextTimeout w), at)]))) \<and>
   (0 < d \<and> d \<le> 2147483647 \<longrightarrow> timer_delay rt d = d) \<and>
   timer_delay rt 100 = 100 \<and> timer_delay rt 50 = 50 \<and> timer_delay rt 500 = 500 \<and>
   (let w = run ops (initial_world rt els);
        w1 = snd (showToolbar a getPositionA w);
        w2 = scheduleHide d w1;
        w3 = advanceTime t w2;
        w4 = snd (showToolbar b getPositionB w3)
    in t < timer_delay rt d \<and> fst (showToolbar a getPositionA w) = Inr () \<and>
       fst (showToolbar b getPositionB w3) = Inr () \<longrightarrow>
         activeElement (getState w4) = Some b \<and> isVisible (getState w4) \<and> timers w4 = [] \<and>
         hides_fired w4 = hides_fired w \<and>
         (list_all time_passes evs \<longrightarrow>
            hides_fired (run evs w4) = hides_fired w \<and> getState (run evs w4) = getState w4))"
proof -
  let ?w = "run ops (initial_world rt els)"
  have s: "single_slot ?w" by (rule single_slot_reachable)
  have r: "runtime ?w = rt" by (rule runtime_reachable)
  have honoured: "0 < d \<and> d \<le> 2147483647 \<longrightarrow> timer_delay rt d = d"
    "timer_delay rt 100 = 100" "timer_delay rt 50 = 50" "timer_delay rt 500 = 500"
    by (cases rt; simp add: timer_delay_def)+
  have race: "t < timer_delay rt d \<and> fst (showToolbar a getPositionA ?w) = Inr () \<and>
       fst (showToolbar b getPositionB (advanceTime t (scheduleHide d (snd (showToolbar a getPositionA ?w))))) = Inr () \<longrightarrow>
         activeElement (getState (snd (showToolbar b getPositionB (advanceTime t (scheduleHide d (snd (showToolbar a getPositionA ?w))))))) = Some b \<and>
         isVisible (getState (snd (showToolbar b getPositionB (advanceTime t (scheduleHide d (snd (showToolbar a getPositionA ?w))))))) \<and>
         timers (snd (showToolbar b getPositionB (advanceTime t (scheduleHide d (snd (showToolbar a getPositionA ?w)))))) = [] \<and>
         hides_fired (snd (showToolbar b getPositionB (advanceTime t (scheduleHide d (snd (showToolbar a getPositionA ?w)))))) = hides_fired ?w \<and>
         (list_all time_passes evs \<longrightarrow>
            hides_fired (run evs (snd (showToolbar b getPositionB (advanceTime t (scheduleHide d (snd (showToolbar a getPositionA ?w))))))) = hides_fired ?w \<and>
            getState (run evs (snd (showToolbar b getPositionB (advanceTime t (scheduleHide d (snd (showToolbar a getPositionA ?w)))))))
              = getState (snd (showToolbar b getPositionB (advanceTime t (scheduleHide d (snd (showToolbar a getPositionA ?w)))))))"
    using focus_race(1-4) [OF s, of t d a getPositionA b getPositionB]
      focus_race(5) [OF s, of t d a getPositionA b getPositionB evs]
    by (simp add: r)
  have first: "length (timers ?w) \<le> 1 \<and>
       timers (snd (showToolbar element getPosition ?w)) = [] \<and>
       timers (scheduleHide d1 ?w) = [(nextTimeout ?w, clock ?w + timer_delay rt d1)] \<and>
       timers (scheduleHide d2 (scheduleHide d1 ?w)) = [(Suc (nextTimeout ?w), clock ?w + timer_delay rt d2)] \<and>
       hides_fired (advanceTime ms (scheduleHide d2 (scheduleHide d1 ?w)))
         = hides_fired ?w @ (if timer_delay rt d2 \<le> ms then [(Suc (nextTimeout ?w), clock ?w + timer_delay rt d2)] else []) \<and>
       getState (advanceTime ms (scheduleHide d2 (scheduleHide d1 ?w)))
         = (if timer_delay rt d2 \<le> ms then hidden_state else getState ?w) \<and>
       timers (advanceTime ms (scheduleHide d2 (scheduleHide d1 ?w)))
         = (if timer_delay rt d2 \<le> ms then [] else timers (scheduleHide d2 (scheduleHide d1 ?w))) \<and>
       (list_all time_passes evs \<longrightarrow>
          hides_fired (run evs (scheduleHide d2 (scheduleHide d1 ?w))) = hides_fired ?w \<or>
          (\<exists>at\<ge>clock ?w + timer_delay rt d2.
             hides_fired (run evs (scheduleHide d2 (scheduleHide d1 ?w))) = hides_fired ?w @ [(Suc (nextTimeout ?w), at)]))"
    using single_slot_length [OF s] timers_showToolbar [OF s, of element getPosition]
      timers_scheduleHide [OF s, of d1]
      supersession(1) [OF s, where ?d2.0 = d2 and ?d1.0 = d1]
      supersession(2-4) [OF s, where ?d2.0 = d2 and ?d1.0 = d1 and ms = ms]
      supersession(5) [OF s, where ?d2.0 = d2 and ?d1.0 = d1 and evs = evs]
    by (simp add: r)
  from first honoured race show ?thesis by (simp only: Let_def) blast
qed

theorem single_pending_hide_witness:
  "hides_fired (advanceTime 200 (scheduleHide 50 (scheduleHide 100 (run example_shown (initial_world NodeJS example_elements)))))
     = [(2, 50)] \<and>
   hides_fired (advanceTime 49 (scheduleHide 50 (scheduleHide 100 (run example_shown (initial_world NodeJS example_elements)))))
     = [] \<and>
   (499::nat) < 500 \<and>
   fst (showToolbar 1 None (run example_shown (initial_world NodeJS example_elements))) = Inr () \<and>
   fst (showToolbar 2 None (advanceTime 499 (scheduleHide 500
          (snd (showToolbar 1 None (run example_shown (initial_world NodeJS example_elements))))))) = Inr () \<and>
   activeElement (getState (snd (showToolbar 2 None (advanceTime 499 (scheduleHide 500
          (snd (showToolbar 1 None (run example_shown (initial_world NodeJS example_elements))))))))) = Some 2 \<and>
   list_all time_passes [Elapse 1, TimerFires 3, AdvanceTime 1000] \<and>
   hides_fired (run [Elapse 1, TimerFires 3, AdvanceTime 1000]
      (snd (showToolbar 2 None (advanceTime 499 (scheduleHide 500
          (snd (showToolbar 1 None (run example_shown (initial_world NodeJS example_elements))))))))) = []"
proof -
  let ?w = "run example_shown (initial_world NodeJS example_elements)"
  have shown: "fst (showToolbar 1 None ?w) = Inr ()"
    "fst (showToolbar 2 None (advanceTime 499 (scheduleHide 500 (snd (showToolbar 1 None ?w))))) = Inr ()"
    by (simp_all add: showToolbar_eq Let_def defaultGetPosition_def)
  have start: "hides_fired ?w = []" "nextTimeout ?w = 1" "clock ?w = 0"
    by (simp_all add: example_shown_def eval_simps example_defs)
  show ?thesis
    using single_pending_hide [where ops = example_shown and rt = NodeJS and els = example_elements
        and ?d1.0 = 100 and ?d2.0 = 50 and ms = 200 and a = 1 and getPositionA = None and d = 500
        and t = 499 and b = 2 and getPositionB = None and evs = "[Elapse 1, TimerFires 3, AdvanceTime 1000]"]
      single_pending_hide [where ops = example_shown and rt = NodeJS and els = example_elements
        and ?d1.0 = 100 and ?d2.0 = 50 and ms = 49 and a = 1 and getPositionA = None and d = 500
        and t = 499 and b = 2 and getPositionB = None and evs = "[]"]
      shown start
    by (simp add: Let_def)
qed

lemma cancelled:
  assumes s: "single_slot w" and "t < timer_delay (runtime w) d"
  defines "w' \<equiv> cancelScheduledHide (advanceTime t (scheduleHide d w))"
  shows "getState w' = getState w" and "timers w' = []" and "hides_fired w' = hides_fired w"
    and "list_all time_passes evs \<Longrightarrow> getState (run evs w') = getState w \<and> hides_fired (run evs w') = hides_fired w"
proof -
  let ?w2 = "scheduleHide d w"
  let ?e = "timer_delay (runtime w) d"
  have t2: "timers ?w2 = [(nextTimeout w, clock ?w2 + ?e)]"
    and h2: "hideTimeout (manager ?w2) = Some (nextTimeout w)"
    using single_slot_cleared [OF s] by (simp_all add: scheduleHide_eq)
  have w3: "advanceTime t ?w2 = ?w2\<lparr>clock := clock ?w2 + t\<rparr>"
    using advanceTime_pending [OF t2 h2, of t] \<open>t < ?e\<close> by simp
  show g: "getState w' = getState w"
    unfolding w'_def w3
    by (simp add: cancelScheduledHide_def clearHideTimeout_eq scheduleHide_eq getState_def)
  show t': "timers w' = []"
    unfolding w'_def w3 using single_slot_cleared [OF s]
    by (simp add: cancelScheduledHide_def clearHideTimeout_eq scheduleHide_eq)
  show f: "hides_fired w' = hides_fired w"
    unfolding w'_def w3
    by (simp add: cancelScheduledHide_def clearHideTimeout_eq scheduleHide_eq hides_fired_def)
  assume "list_all time_passes evs"
  from quiet_run [OF t' this] obtain c where "run evs w' = w'\<lparr>clock := c\<rparr>" by blast
  with g f show "getState (run evs w') = getState w \<and> hides_fired (run evs w') = hides_fired w"
    by (simp add: getState_def hides_fired_def)
qed

lemma cancelled_at_once:
  assumes s: "single_slot w"
  shows "timers (cancelScheduledHide (scheduleHide d w)) = []"
    and "getState (cancelScheduledHide (scheduleHide d w)) = getState w"
  using single_slot_cleared [OF s]
  by (simp_all add: cancelScheduledHide_def clearHideTimeout_eq scheduleHide_eq getState_def)

text \<open>
  C6 as stated fails: not every delay is waited for. The toolbar shows;
  \<open>scheduleHide(2147483648)\<close> starts a timer that either runtime fires at once (Node after
  \<open>1\<close> millisecond, a browser after \<open>0\<close>); \<open>50\<close> milliseconds later, long before the delay
  has elapsed, \<open>cancelScheduledHide\<close> comes too late and the toolbar is hidden.
\<close>

theorem cancelled_hide_counterexample:
  "(50::nat) < 2147483648 \<and>
   getState (run example_shown (initial_world NodeJS example_elements))
     = \<lparr>activeElement = Some 1, isVisible = True, position = Some \<lparr>pos_x = 40, pos_y = 60\<rparr>\<rparr> \<and>
   getState (cancelScheduledHide (advanceTime 50 (scheduleHide 2147483648
       (run example_shown (initial_world NodeJS example_elements)))))
     = \<lparr>activeElement = None, isVisible = False, position = None\<rparr> \<and>
   hides_fired (cancelScheduledHide (advanceTime 50 (scheduleHide 2147483648
       (run example_shown (initial_world NodeJS example_elements))))) = [(1, 1)] \<and>
   getState (cancelScheduledHide (advanceTime 50 (scheduleHide 2147483648
       (run example_shown (initial_world Browser example_elements)))))
     = \<lparr>activeElement = None, isVisible = False, position = None\<rparr> \<and>
   hides_fired (cancelScheduledHide (advanceTime 50 (scheduleHide 2147483648
       (run example_shown (initial_world Browser example_elements))))) = [(1, 0)]"
  by (simp add: example_shown_def example_defs eval_simps map_filter_append)

text \<open>
  C6, amended. In a world of a run, in either runtime, after \<open>scheduleHide d\<close>, less than
  the delay the timer waits for \<open>d\<close> passing and \<open>cancelScheduledHide\<close>, the state is the
  one before \<open>scheduleHide\<close>, nothing is pending, and no sequence of timers firing and
  time passing changes the state or fires a hide. That delay is \<open>d\<close> itself for every
  \<open>d\<close> up to \<open>2^31 - 1\<close>, so for such a \<open>d\<close> this holds when less than \<open>d\<close> has passed. A
  cancel right after \<open>scheduleHide\<close> does the same for every delay. And \<open>scheduleHide\<close>
  never hides in the call: for every world and delay, \<open>0\<close> too, the state and the trace
  when it returns are those before, and its timer is pending.
\<close>

theorem cancelled_hide_never_fires:
  "(let w = run ops (initial_world rt els);
        w' = cancelScheduledHide (advanceTime t (scheduleHide d w))
    in (t < timer_delay rt d \<or> (t < d \<and> d \<le> 2147483647) \<longrightarrow>
          getState w' = getState w \<and> timers w' = [] \<and> hides_fired w' = hides_fired w \<and>
          (list_all time_passes evs \<longrightarrow>
             getState (run evs w') = getState w \<and> hides_fired (run evs w') = hides_fired w)) \<and>
       timers (cancelScheduledHide (scheduleHide d w)) = [] \<and>
       getState (cancelScheduledHide (scheduleHide d w)) = getState w) \<and>
   getState (scheduleHide d v) = getState v \<and>
   trace (scheduleHide d v) = trace v \<and>
   (nextTimeout v, clock v + timer_delay (runtime v) d) \<in> set (timers (scheduleHide d v)) \<and>
   getState (scheduleHide 0 v) = getState v \<and>
   trace (scheduleHide 0 v) = trace v \<and>
   (nextTimeout v, clock v + timer_delay (runtime v) 0) \<in> set (timers (scheduleHide 0 v))"
proof -
  let ?w = "run ops (initial_world rt els)"
  have s: "single_slot ?w" by (rule single_slot_reachable)
  have r: "runtime ?w = rt" by (rule runtime_reachable)
  have sync: "getState (scheduleHide n v) = getState v" "trace (scheduleHide n v) = trace v"
    "(nextTimeout v, clock v + timer_delay (runtime v) n) \<in> set (timers (scheduleHide n v))" for n
    by (simp_all add: scheduleHide_eq getState_def)
  let ?w' = "cancelScheduledHide (advanceTime t (scheduleHide d ?w))"
  have main: "t < timer_delay rt d \<or> (t < d \<and> d \<le> 2147483647) \<longrightarrow>
          getState ?w' = getState ?w \<and> timers ?w' = [] \<and> hides_fired ?w' = hides_fired ?w \<and>
          (list_all time_passes evs \<longrightarrow>
             getState (run evs ?w') = getState ?w \<and> hides_fired (run evs ?w') = hides_fired ?w)"
  proof
    assume "t < timer_delay rt d \<or> (t < d \<and> d \<le> 2147483647)"
    then have lt: "t < timer_delay (runtime ?w) d"
      using timer_delay_honoured [of t d rt] by (auto simp: r)
    from cancelled(1-3) [OF s lt] cancelled(4) [OF s lt, of evs]
    show "getState ?w' = getState ?w \<and> timers ?w' = [] \<and> hides_fired ?w' = hides_fired ?w \<and>
          (list_all time_passes evs \<longrightarrow>
             getState (run evs ?w') = getState ?w \<and> hides_fired (run evs ?w') = hides_fired ?w)"
      by blast
  qed
  from main cancelled_at_once [OF s, of d] sync [of d] sync [of 0]
  show ?thesis by (simp only: Let_def)
qed

theorem cancelled_hide_never_fires_witness:
  "(100::nat) < 500 \<and> (500::nat) \<le> 2147483647 \<and>
   list_all time_passes [Elapse 1000, TimerFires 1, AdvanceTime 5000] \<and>
   getState (run [Elapse 1000, TimerFires 1, AdvanceTime 5000]
       (cancelScheduledHide (advanceTime 100 (scheduleHide 500 (run example_shown (initial_world NodeJS example_elements))))))
     = \<lparr>activeElement = Some 1, isVisible = True, position = Some \<lparr>pos_x = 40, pos_y = 60\<rparr>\<rparr> \<and>
   hides_fired (run [Elapse 1000, TimerFires 1, AdvanceTime 5000]
       (cancelScheduledHide (advanceTime 100 (scheduleHide 500 (run example_shown (initial_world NodeJS example_elements))))))
     = [] \<and>
   getState (scheduleHide 0 (run example_shown (initial_world NodeJS example_elements)))
     = \<lparr>activeElement = Some 1, isVisible = True, position = Some \<lparr>pos_x = 40, pos_y = 60\<rparr>\<rparr> \<and>
   timers (scheduleHide 0 (run example_shown (initial_world NodeJS example_elements))) = [(1, 1)] \<and>
   timers (scheduleHide 0 (run example_shown (initial_world Browser example_elements))) = [(1, 0)]"
proof -
  let ?w = "run example_shown (initial_world NodeJS example_elements)"
  have start: "hides_fired ?w = []"
    "getState ?w = \<lparr>activeElement = Some 1, isVisible = True, position = Some \<lparr>pos_x = 40, pos_y = 60\<rparr>\<rparr>"
    by (simp_all add: example_shown_def eval_simps example_defs)
  have t: "timers (scheduleHide 0 ?w) = [(1, 1)]"
    "timers (scheduleHide 0 (run example_shown (initial_world Browser example_elements))) = [(1, 0)]"
    by (simp_all add: example_shown_def eval_simps example_defs)
  show ?thesis
    using cancelled_hide_never_fires [where ops = example_shown and rt = NodeJS and els = example_elements
        and t = 100 and d = 500 and evs = "[Elapse 1000, TimerFires 1, AdvanceTime 5000]" and v = ?w]
      start t
    by (simp add: Let_def)
qed

end
